theory Spec2Isabelle
  imports Main "HOL-Library.Word" "HOL-Library.Monad_Syntax"
begin

section \<open>The JACK input wrapper of OBS (plugins/linux-jack/jack-wrapper.c)\<close>

text \<open>
  The wrapper bridges the JACK audio engine to an OBS audio source. JACK's real-time
  thread calls \<open>jack_process_callback\<close> once per period and
  \<open>jack_buffer_size_callback\<close> when the period size changes; a worker thread runs
  \<open>jack_transfer_worker\<close> and hands the buffered periods to OBS.

  The embedding follows the C text. The machine is LP64 Linux with glibc:
  \<open>long\<close>, \<open>size_t\<close> and \<open>uint_fast32_t\<close> are 64 bits wide,
  \<open>uint_fast8_t\<close> is 8 bits wide, \<open>jack_nframes_t\<close> is \<open>uint32_t\<close>
  and \<open>jack_time_t\<close> is \<open>uint64_t\<close>. A sample
  (\<open>jack_default_audio_sample_t\<close>, a 32-bit float) is kept as its 32-bit pattern:
  the code only zeroes and copies samples, it never computes with them.
\<close>

subsection \<open>Types of the headers\<close>

type_synonym addr = nat
type_synonym jack_nframes_t = "32 word"
type_synonym jack_time_t = "64 word"
type_synonym jack_default_audio_sample_t = "32 word"
type_synonym long = "64 word"
type_synonym size_t = "64 word"
type_synonym uint_fast8_t = "8 word"
type_synonym uint_fast32_t = "64 word"

text \<open>Opaque handles of JACK, OBS and pthreads: only their identity matters.\<close>

type_synonym jack_client_t = nat
type_synonym jack_port_t = nat
type_synonym obs_source_t = nat
type_synonym pthread_t = nat

text \<open>\<open>enum speaker_layout\<close> and \<open>enum audio_format\<close> of libobs (media-io/audio-io.h).\<close>

datatype speaker_layout =
    SPEAKERS_UNKNOWN
  | SPEAKERS_MONO
  | SPEAKERS_STEREO
  | SPEAKERS_2POINT1
  | SPEAKERS_4POINT0
  | SPEAKERS_4POINT1
  | SPEAKERS_5POINT1
  | SPEAKERS_7POINT1

datatype audio_format =
    AUDIO_FORMAT_UNKNOWN
  | AUDIO_FORMAT_U8BIT
  | AUDIO_FORMAT_16BIT
  | AUDIO_FORMAT_32BIT
  | AUDIO_FORMAT_FLOAT
  | AUDIO_FORMAT_U8BIT_PLANAR
  | AUDIO_FORMAT_16BIT_PLANAR
  | AUDIO_FORMAT_32BIT_PLANAR
  | AUDIO_FORMAT_FLOAT_PLANAR

datatype jack_options_t = JackNullOption | JackNoStartServer

subsection \<open>Speaker layout\<close>

text \<open>The \<open>switch\<close> of \<open>jack_channels_to_obs_speakers\<close>; case 7 is commented out
  in the source, so 7 falls through to the final \<open>return SPEAKERS_UNKNOWN\<close>.\<close>

definition jack_channels_to_obs_speakers :: "uint_fast32_t \<Rightarrow> speaker_layout" where
  "jack_channels_to_obs_speakers channels =
     (if channels = 1 then SPEAKERS_MONO
      else if channels = 2 then SPEAKERS_STEREO
      else if channels = 3 then SPEAKERS_2POINT1
      else if channels = 4 then SPEAKERS_4POINT0
      else if channels = 5 then SPEAKERS_4POINT1
      else if channels = 6 then SPEAKERS_5POINT1
      else if channels = 8 then SPEAKERS_7POINT1
      else SPEAKERS_UNKNOWN)"

subsection \<open>The structs of jack-wrapper.h and of obs.h\<close>

text \<open>
  \<open>struct obs_source_audio\<close>, as far as the worker fills it in. \<open>data\<close> holds
  the plane pointers the worker stores, in order; the planes it leaves untouched are
  uninitialised stack memory and are not represented.
\<close>

record obs_source_audio =
  data :: "addr option list"
  frames :: "32 word"
  speakers :: speaker_layout
  format :: audio_format
  samples_per_sec :: "32 word"
  timestamp :: "64 word"

text \<open>\<open>MAX_AV_PLANES\<close> of libobs: the length of \<open>obs_source_audio.data\<close>.\<close>

definition MAX_AV_PLANES :: nat where
  "MAX_AV_PLANES = 8"

record jack_ring_buffer_item =
  buffer :: "addr option"
  nframes :: jack_nframes_t
  timestamp :: jack_time_t

text \<open>
  \<open>struct jack_data\<close>. Pointers are \<open>addr option\<close>, \<open>None\<close> being \<open>NULL\<close>.
  \<open>rb_mutex\<close> has no field: locking and unlocking it are events of the trace.
\<close>

record jack_data =
  source :: obs_source_t
  device :: string
  channels :: uint_fast8_t
  start_jack_server :: bool
  speakers :: speaker_layout
  jack_client :: "jack_client_t option"
  jack_ports :: "addr option"
  activated :: bool
  rb :: "addr option"
  rb_buffer_size :: jack_nframes_t
  rb_items :: size_t
  rb_read :: long
  rb_write :: long
  transfer_thread :: pthread_t
  transfer_thread_started :: bool

subsection \<open>Memory and observable events\<close>

text \<open>
  The heap holds the four kinds of arrays the wrapper allocates with \<open>bzalloc\<close>:
  the slot array \<open>data->rb\<close>, a slot's array of channel pointers
  \<open>rb[i].buffer\<close>, a channel's samples \<open>rb[i].buffer[j]\<close>, and the port array
  \<open>data->jack_ports\<close>.
\<close>

datatype block =
    Items "jack_ring_buffer_item list"
  | Channels "addr option list"
  | Samples "jack_default_audio_sample_t list"
  | Ports "jack_port_t option list"

datatype cursor = Rb_read | Rb_write

text \<open>
  The trace records, in program order, what the wrapper does to the world outside its
  own locals and plain fields: calls into JACK, pthreads, OBS and the allocator, and
  stores to the \<open>volatile\<close> members \<open>activated\<close>, \<open>rb_read\<close> and
  \<open>rb_write\<close> (plain stores and the \<open>os_atomic\<close> operations). Queries of the
  engine (buffer size, sample rate, frame time, port buffers) and \<open>blog\<close> messages
  are not recorded.
\<close>

datatype event =
    Jack_client_open string jack_options_t
  | Jack_port_register jack_client_t string
  | Jack_set_buffer_size_callback jack_client_t
  | Jack_set_process_callback jack_client_t
  | Jack_activate jack_client_t
  | Jack_deactivate jack_client_t
  | Jack_port_unregister jack_client_t jack_port_t
  | Jack_client_close jack_client_t
  | Pthread_create
  | Pthread_join pthread_t
  | Pthread_mutex_lock
  | Pthread_mutex_unlock
  | Os_sleep_ms nat
  | Obs_source_output_audio obs_source_t obs_source_audio
  | Bzalloc addr
  | Bfree addr
  | Store_activated bool
  | Store_long cursor long
  | Os_atomic_set_long cursor long
  | Os_atomic_inc_long cursor

record world =
  mem :: "addr \<Rightarrow> block option"
  next_addr :: addr
  trace :: "event list"

type_synonym state = "jack_data \<times> world"

text \<open>
  What the wrapper's callees answer: the JACK client library and \<open>pthread_create\<close>.
  They are not code of the wrapper, so every theorem holds for all of them.
  \<open>pthread_create\<close> is \<open>None\<close> when the call fails (a non-zero return), and the
  new thread's handle otherwise. \<open>jack_port_get_buffer\<close> gives the samples the port's
  buffer holds.
\<close>

record env =
  jack_client_open :: "string \<Rightarrow> jack_options_t \<Rightarrow> jack_client_t option"
  jack_port_register :: "jack_client_t \<Rightarrow> string \<Rightarrow> jack_port_t option"
  jack_set_buffer_size_callback :: "jack_client_t \<Rightarrow> int"
  jack_set_process_callback :: "jack_client_t \<Rightarrow> int"
  jack_activate :: "jack_client_t \<Rightarrow> int"
  pthread_create :: "pthread_t option"
  jack_get_buffer_size :: "jack_client_t \<Rightarrow> jack_nframes_t"
  jack_get_sample_rate :: "jack_client_t \<Rightarrow> jack_nframes_t"
  jack_port_get_buffer :: "jack_port_t \<Rightarrow> jack_nframes_t \<Rightarrow> jack_default_audio_sample_t list"
  jack_last_frame_time :: "jack_client_t \<Rightarrow> jack_nframes_t"
  jack_frames_to_time :: "jack_client_t \<Rightarrow> jack_nframes_t \<Rightarrow> jack_time_t"

text \<open>
  Every operation returns an \<open>option\<close>: \<open>None\<close> is undefined behaviour of the C
  program (a null or dangling pointer dereferenced, an index out of its array, a
  division by zero, a JACK call on a null handle).
\<close>

definition guard :: "bool \<Rightarrow> unit option" where
  "guard b = (if b then Some () else None)"

definition index :: "'a list \<Rightarrow> nat \<Rightarrow> 'a option" where
  "index xs i = (if i < length xs then Some (xs ! i) else None)"

definition emit :: "event \<Rightarrow> world \<Rightarrow> world" where
  "emit ev w = w\<lparr>trace := trace w @ [ev]\<rparr>"

text \<open>\<open>for (i = 0; i < n; ++i) body\<close> is \<open>for_loop [0..<n] body\<close>.\<close>

fun for_loop :: "nat list \<Rightarrow> (nat \<Rightarrow> 's \<Rightarrow> 's option) \<Rightarrow> 's \<Rightarrow> 's option" where
  "for_loop [] body s = Some s"
| "for_loop (i # is) body s = Option.bind (body i s) (for_loop is body)"

text \<open>
  \<open>bzalloc\<close> returns a fresh block of zeroed memory; the caller's use of the block
  fixes its kind, so the zeroed block is passed in. libobs aborts the process when
  memory runs out, so an allocation that returns has succeeded.
\<close>

definition bzalloc :: "block \<Rightarrow> world \<Rightarrow> addr \<times> world" where
  "bzalloc zeroed w =
     (next_addr w,
      w\<lparr>mem := (mem w)(next_addr w \<mapsto> zeroed),
        next_addr := Suc (next_addr w),
        trace := trace w @ [Bzalloc (next_addr w)]\<rparr>)"

text \<open>\<open>bfree\<close> ignores \<open>NULL\<close>; freeing what is not allocated is undefined.\<close>

definition bfree :: "addr option \<Rightarrow> world \<Rightarrow> world option" where
  "bfree p w =
     (case p of
        None \<Rightarrow> Some w
      | Some a \<Rightarrow>
          if mem w a = None then None
          else Some (w\<lparr>mem := (mem w)(a := None), trace := trace w @ [Bfree a]\<rparr>))"

definition load_items :: "world \<Rightarrow> addr option \<Rightarrow> jack_ring_buffer_item list option" where
  "load_items w p =
     (case p of None \<Rightarrow> None
      | Some a \<Rightarrow> (case mem w a of Some (Items xs) \<Rightarrow> Some xs | _ \<Rightarrow> None))"

definition load_channels :: "world \<Rightarrow> addr option \<Rightarrow> addr option list option" where
  "load_channels w p =
     (case p of None \<Rightarrow> None
      | Some a \<Rightarrow> (case mem w a of Some (Channels xs) \<Rightarrow> Some xs | _ \<Rightarrow> None))"

definition load_samples :: "world \<Rightarrow> addr option \<Rightarrow> jack_default_audio_sample_t list option" where
  "load_samples w p =
     (case p of None \<Rightarrow> None
      | Some a \<Rightarrow> (case mem w a of Some (Samples xs) \<Rightarrow> Some xs | _ \<Rightarrow> None))"

definition load_ports :: "world \<Rightarrow> addr option \<Rightarrow> jack_port_t option list option" where
  "load_ports w p =
     (case p of None \<Rightarrow> None
      | Some a \<Rightarrow> (case mem w a of Some (Ports xs) \<Rightarrow> Some xs | _ \<Rightarrow> None))"

text \<open>\<open>p[i] = f(p[i])\<close> on a slot array, \<open>p[j] = v\<close> on a channel array and on a
  port array.\<close>

definition update_item ::
  "addr option \<Rightarrow> nat \<Rightarrow> (jack_ring_buffer_item \<Rightarrow> jack_ring_buffer_item) \<Rightarrow> world \<Rightarrow> world option" where
  "update_item p i f w = do {
     a \<leftarrow> p;
     xs \<leftarrow> load_items w p;
     guard (i < length xs);
     Some (w\<lparr>mem := (mem w)(a \<mapsto> Items (xs[i := f (xs ! i)]))\<rparr>)
   }"

definition store_channel :: "addr option \<Rightarrow> nat \<Rightarrow> addr option \<Rightarrow> world \<Rightarrow> world option" where
  "store_channel p j v w = do {
     a \<leftarrow> p;
     xs \<leftarrow> load_channels w p;
     guard (j < length xs);
     Some (w\<lparr>mem := (mem w)(a \<mapsto> Channels (xs[j := v]))\<rparr>)
   }"

definition store_port :: "addr option \<Rightarrow> nat \<Rightarrow> jack_port_t option \<Rightarrow> world \<Rightarrow> world option" where
  "store_port p i v w = do {
     a \<leftarrow> p;
     xs \<leftarrow> load_ports w p;
     guard (i < length xs);
     Some (w\<lparr>mem := (mem w)(a \<mapsto> Ports (xs[i := v]))\<rparr>)
   }"

text \<open>\<open>memcpy(dst, src, n * sizeof(jack_default_audio_sample_t))\<close>: the first \<open>n\<close>
  samples of the destination are replaced; both arrays must hold \<open>n\<close> samples.\<close>

definition memcpy ::
  "addr option \<Rightarrow> jack_default_audio_sample_t list \<Rightarrow> nat \<Rightarrow> world \<Rightarrow> world option" where
  "memcpy dst src n w = do {
     a \<leftarrow> dst;
     xs \<leftarrow> load_samples w dst;
     guard (n \<le> length xs \<and> n \<le> length src);
     Some (w\<lparr>mem := (mem w)(a \<mapsto> Samples (take n src @ drop n xs))\<rparr>)
   }"

subsection \<open>The ring buffer: \<open>create_rb\<close> and \<open>destroy_rb\<close>\<close>

text \<open>The body of the inner loop of \<open>create_rb\<close>:
  \<open>data->rb[i].buffer[j] = bzalloc(data->rb_buffer_size * sizeof(sample))\<close>.\<close>

definition create_rb_channel :: "jack_data \<Rightarrow> nat \<Rightarrow> nat \<Rightarrow> world \<Rightarrow> world option" where
  "create_rb_channel d i j w = do {
     let (s, w) = bzalloc (Samples (replicate (unat (rb_buffer_size d)) 0)) w;
     items \<leftarrow> load_items w (rb d);
     item \<leftarrow> index items i;
     store_channel (buffer item) j (Some s) w
   }"

text \<open>The body of the outer loop of \<open>create_rb\<close>.\<close>

definition create_rb_item :: "jack_data \<Rightarrow> nat \<Rightarrow> world \<Rightarrow> world option" where
  "create_rb_item d i w = do {
     let (b, w) = bzalloc (Channels (replicate (unat (channels d)) None)) w;
     w \<leftarrow> update_item (rb d) i (\<lambda>item. item\<lparr>buffer := Some b\<rparr>) w;
     for_loop [0..<unat (channels d)] (create_rb_channel d i) w
   }"

definition create_rb :: "env \<Rightarrow> state \<Rightarrow> state option" where
  "create_rb e s = (case s of (d, w) \<Rightarrow> do {
     c \<leftarrow> jack_client d;
     let d = d\<lparr>rb_buffer_size := jack_get_buffer_size e c\<rparr>;
     let sample_rate = jack_get_sample_rate e c;
     guard (rb_buffer_size d \<noteq> 0);
     let d = d\<lparr>rb_items := ucast (sample_rate div rb_buffer_size d)\<rparr>;
     let (a, w) = bzalloc (Items (replicate (unat (rb_items d))
                    \<lparr>buffer = None, nframes = 0, timestamp = 0\<rparr>)) w;
     let d = d\<lparr>rb := Some a\<rparr>;
     w \<leftarrow> for_loop [0..<unat (rb_items d)] (create_rb_item d) w;
     let d = d\<lparr>rb_read := 0\<rparr>;
     let w = emit (Store_long Rb_read 0) w;
     let d = d\<lparr>rb_write := 0\<rparr>;
     let w = emit (Store_long Rb_write 0) w;
     Some (d, w)
   })"

text \<open>The body of the inner loop of \<open>destroy_rb\<close>: \<open>bfree(data->rb[i].buffer[j])\<close>.\<close>

definition destroy_rb_channel :: "jack_data \<Rightarrow> nat \<Rightarrow> nat \<Rightarrow> world \<Rightarrow> world option" where
  "destroy_rb_channel d i j w = do {
     items \<leftarrow> load_items w (rb d);
     item \<leftarrow> index items i;
     chans \<leftarrow> load_channels w (buffer item);
     p \<leftarrow> index chans j;
     bfree p w
   }"

definition destroy_rb_item :: "jack_data \<Rightarrow> nat \<Rightarrow> world \<Rightarrow> world option" where
  "destroy_rb_item d i w = do {
     w \<leftarrow> for_loop [0..<unat (channels d)] (destroy_rb_channel d i) w;
     items \<leftarrow> load_items w (rb d);
     item \<leftarrow> index items i;
     bfree (buffer item) w
   }"

definition destroy_rb :: "state \<Rightarrow> state option" where
  "destroy_rb s = (case s of (d, w) \<Rightarrow>
     if rb d = None then Some (d, w)
     else do {
       let d = d\<lparr>rb_write := 0\<rparr>;
       let w = emit (Os_atomic_set_long Rb_write 0) w;
       let d = d\<lparr>rb_read := 0\<rparr>;
       let w = emit (Os_atomic_set_long Rb_read 0) w;
       w \<leftarrow> for_loop [0..<unat (rb_items d)] (destroy_rb_item d) w;
       w \<leftarrow> bfree (rb d) w;
       Some (d\<lparr>rb := None\<rparr>, w)
     })"

subsection \<open>The consumer: \<open>jack_transfer_worker\<close>\<close>

text \<open>
  One pass through the body of \<open>while (data->activated)\<close>. \<open>rb_read % data->rb_items\<close>
  is computed in \<open>unsigned long\<close> (the \<open>long\<close> is converted), and
  \<open>rb_read >= rb_write\<close> compares the two \<open>long\<close>s as signed numbers.
\<close>

definition jack_transfer_worker_body :: "env \<Rightarrow> state \<Rightarrow> state option" where
  "jack_transfer_worker_body e s = (case s of (d, w) \<Rightarrow>
     let rb_read' = rb_read d; rb_write' = rb_write d in
     if rb_write' \<le>s rb_read' then Some (d, emit (Os_sleep_ms 20) w)
     else do {
       let w = emit Pthread_mutex_lock w;
       guard (rb_items d \<noteq> 0);
       let rb_item = unat (rb_read' mod rb_items d);
       let out_speakers = jack_channels_to_obs_speakers (ucast (channels d));
       c \<leftarrow> jack_client d;
       let out_samples_per_sec = jack_get_sample_rate e c;
       let out_format = AUDIO_FORMAT_FLOAT_PLANAR;
       out_data \<leftarrow> for_loop [0..<unat (channels d)] (\<lambda>i out_data. do {
           guard (i < MAX_AV_PLANES);
           items \<leftarrow> load_items w (rb d);
           item \<leftarrow> index items rb_item;
           chans \<leftarrow> load_channels w (buffer item);
           p \<leftarrow> index chans i;
           Some (out_data @ [p])
         }) [];
       items \<leftarrow> load_items w (rb d);
       item \<leftarrow> index items rb_item;
       let out = \<lparr>obs_source_audio.data = out_data,
                  frames = nframes item,
                  obs_source_audio.speakers = out_speakers,
                  format = out_format,
                  samples_per_sec = out_samples_per_sec,
                  obs_source_audio.timestamp = timestamp item * 1000\<rparr>;
       let w = emit (Obs_source_output_audio (source d) out) w;
       let w = emit Pthread_mutex_unlock w;
       let d = d\<lparr>rb_read := rb_read d + 1\<rparr>;
       let w = emit (Os_atomic_inc_long Rb_read) w;
       Some (d, w)
     })"

text \<open>
  The same body from \<open>pthread_mutex_lock\<close> on (lines 135 to 156), for a worker that
  loaded \<open>rb_read\<close> before: the slot is chosen by the loaded value, the increment
  is of the field. Between the loads and the lock the worker holds no lock.
\<close>

definition jack_transfer_worker_transfer :: "env \<Rightarrow> long \<Rightarrow> state \<Rightarrow> state option" where
  "jack_transfer_worker_transfer e rb_read' s = (case s of (d, w) \<Rightarrow> do {
     let w = emit Pthread_mutex_lock w;
     guard (rb_items d \<noteq> 0);
     let rb_item = unat (rb_read' mod rb_items d);
     let out_speakers = jack_channels_to_obs_speakers (ucast (channels d));
     c \<leftarrow> jack_client d;
     let out_samples_per_sec = jack_get_sample_rate e c;
     let out_format = AUDIO_FORMAT_FLOAT_PLANAR;
     out_data \<leftarrow> for_loop [0..<unat (channels d)] (\<lambda>i out_data. do {
         guard (i < MAX_AV_PLANES);
         items \<leftarrow> load_items w (rb d);
         item \<leftarrow> index items rb_item;
         chans \<leftarrow> load_channels w (buffer item);
         p \<leftarrow> index chans i;
         Some (out_data @ [p])
       }) [];
     items \<leftarrow> load_items w (rb d);
     item \<leftarrow> index items rb_item;
     let out = \<lparr>obs_source_audio.data = out_data,
                frames = nframes item,
                obs_source_audio.speakers = out_speakers,
                format = out_format,
                samples_per_sec = out_samples_per_sec,
                obs_source_audio.timestamp = timestamp item * 1000\<rparr>;
     let w = emit (Obs_source_output_audio (source d) out) w;
     let w = emit Pthread_mutex_unlock w;
     let d = d\<lparr>rb_read := rb_read d + 1\<rparr>;
     let w = emit (Os_atomic_inc_long Rb_read) w;
     Some (d, w)
   })"

text \<open>
  The loop itself. Run alone it returns at once when \<open>activated\<close> is clear and never
  returns otherwise (the flag is cleared by another thread): \<open>None\<close> is "does not
  return", by looping or by undefined behaviour.
\<close>

partial_function (option) jack_transfer_worker :: "env \<Rightarrow> state \<Rightarrow> state option" where
  "jack_transfer_worker e s =
     (if activated (fst s) then Option.bind (jack_transfer_worker_body e s) (jack_transfer_worker e)
      else Some s)"

subsection \<open>The engine's callbacks\<close>

definition jack_buffer_size_callback :: "env \<Rightarrow> jack_nframes_t \<Rightarrow> state \<Rightarrow> (int \<times> state) option" where
  "jack_buffer_size_callback e nf s = (case s of (d, w) \<Rightarrow>
     if nf = rb_buffer_size d then Some (0, (d, w))
     else do {
       let w = emit Pthread_mutex_lock w;
       (d, w) \<leftarrow> destroy_rb (d, w);
       let d = d\<lparr>rb_buffer_size := nf\<rparr>;
       (d, w) \<leftarrow> create_rb e (d, w);
       let w = emit Pthread_mutex_unlock w;
       Some (0, (d, w))
     })"

text \<open>The body of the loop of \<open>jack_process_callback\<close>: the port's buffer is copied
  into channel \<open>i\<close> of the slot \<open>rb_item\<close>.\<close>

definition copy_port :: "env \<Rightarrow> jack_data \<Rightarrow> nat \<Rightarrow> jack_nframes_t \<Rightarrow> nat \<Rightarrow> world \<Rightarrow> world option" where
  "copy_port e d rb_item nf i w = do {
     ports \<leftarrow> load_ports w (jack_ports d);
     port \<leftarrow> index ports i;
     p \<leftarrow> port;
     let jack_buffer = jack_port_get_buffer e p nf;
     items \<leftarrow> load_items w (rb d);
     item \<leftarrow> index items rb_item;
     chans \<leftarrow> load_channels w (buffer item);
     dst \<leftarrow> index chans i;
     memcpy dst jack_buffer (unat nf) w
   }"

text \<open>\<open>arg\<close> is \<open>None\<close> for a null pointer, and the session it points to otherwise.\<close>

definition jack_process_callback ::
  "env \<Rightarrow> jack_nframes_t \<Rightarrow> state option \<Rightarrow> (int \<times> state option) option" where
  "jack_process_callback e nf arg =
     (case arg of
        None \<Rightarrow> Some (0, None)
      | Some (d, w) \<Rightarrow> do {
          let rb_write' = rb_write d;
          guard (rb_items d \<noteq> 0);
          let rb_item = unat (rb_write' mod rb_items d);
          w \<leftarrow> for_loop [0..<unat (channels d)] (copy_port e d rb_item nf) w;
          w \<leftarrow> update_item (rb d) rb_item (\<lambda>item. item\<lparr>nframes := nf\<rparr>) w;
          c \<leftarrow> jack_client d;
          w \<leftarrow> update_item (rb d) rb_item
                 (\<lambda>item. item\<lparr>timestamp := jack_frames_to_time e c (jack_last_frame_time e c)\<rparr>) w;
          let d = d\<lparr>rb_write := rb_write d + 1\<rparr>;
          let w = emit (Os_atomic_inc_long Rb_write) w;
          Some (0, Some (d, w))
        })"

subsection \<open>Startup and teardown: \<open>jack_init\<close> and \<open>deactivate_jack\<close>\<close>

text \<open>\<open>snprintf(port_name, sizeof(port_name), "in_%u", i + 1)\<close> into \<open>char[10]\<close>.\<close>

fun decimal :: "nat \<Rightarrow> string" where
  "decimal n =
     (if n < 10 then [''0123456789'' ! n]
      else decimal (n div 10) @ [''0123456789'' ! (n mod 10)])"

definition port_name :: "nat \<Rightarrow> string" where
  "port_name i = take 9 (''in_'' @ decimal (i + 1))"

text \<open>The port loop of \<open>jack_init\<close>; the flag is \<open>False\<close> when a registration
  failed and the loop left through \<open>goto error\<close>.\<close>

fun register_ports :: "env \<Rightarrow> jack_data \<Rightarrow> nat list \<Rightarrow> world \<Rightarrow> (bool \<times> world) option" where
  "register_ports e d [] w = Some (True, w)"
| "register_ports e d (i # is) w = do {
     c \<leftarrow> jack_client d;
     let w = emit (Jack_port_register c (port_name i)) w;
     let port = jack_port_register e c (port_name i);
     w \<leftarrow> store_port (jack_ports d) i port w;
     if port = None then Some (False, w) else register_ports e d is w
   }"

definition jack_init :: "env \<Rightarrow> state \<Rightarrow> (int \<times> state) option" where
  "jack_init e s = (case s of (d, w) \<Rightarrow>
     if jack_client d \<noteq> None then Some (0, (d, w))
     else do {
       let jack_option = (if start_jack_server d then JackNullOption else JackNoStartServer);
       let w = emit (Jack_client_open (device d) jack_option) w;
       let d = d\<lparr>jack_client := jack_client_open e (device d) jack_option\<rparr>;
       case jack_client d of
         None \<Rightarrow> Some (1, (d, w))
       | Some c \<Rightarrow> do {
           let (ports, w) = bzalloc (Ports (replicate (unat (channels d)) None)) w;
           let d = d\<lparr>jack_ports := Some ports\<rparr>;
           (registered, w) \<leftarrow> register_ports e d [0..<unat (channels d)] w;
           if \<not> registered then Some (1, (d, w))
           else do {
             let w = emit (Jack_set_buffer_size_callback c) w;
             if jack_set_buffer_size_callback e c \<noteq> 0 then Some (1, (d, w))
             else do {
               let w = emit (Jack_set_process_callback c) w;
               if jack_set_process_callback e c \<noteq> 0 then Some (1, (d, w))
               else do {
                 (d, w) \<leftarrow> create_rb e (d, w);
                 let w = emit (Jack_activate c) w;
                 if jack_activate e c \<noteq> 0 then Some (1, (d, w))
                 else do {
                   let d = d\<lparr>activated := True\<rparr>;
                   let w = emit (Store_activated True) w;
                   let w = emit Pthread_create w;
                   case pthread_create e of
                     None \<Rightarrow> Some (1, (d, w))
                   | Some thread \<Rightarrow>
                       Some (0, (d\<lparr>transfer_thread := thread,
                                    transfer_thread_started := True\<rparr>, w))
                 }
               }
             }
           }
         }
     })"

definition unregister_ports :: "state \<Rightarrow> state option" where
  "unregister_ports s = (case s of (d, w) \<Rightarrow> do {
     w \<leftarrow> (if jack_ports d \<noteq> None
           then for_loop [0..<unat (channels d)] (\<lambda>i w. do {
                  ports \<leftarrow> load_ports w (jack_ports d);
                  port \<leftarrow> index ports i;
                  case port of
                    None \<Rightarrow> Some w
                  | Some p \<Rightarrow> do {
                      c \<leftarrow> jack_client d;
                      Some (emit (Jack_port_unregister c p) w)
                    }
                }) w
           else Some w);
     w \<leftarrow> bfree (jack_ports d) w;
     Some (d\<lparr>jack_ports := None\<rparr>, w)
   })"

definition deactivate_jack :: "state \<Rightarrow> state option" where
  "deactivate_jack s = (case s of (d, w) \<Rightarrow>
     (case jack_client d of
       None \<Rightarrow> Some (d, w)
     | Some c \<Rightarrow> do {
         let (d, w) = (if activated d
                       then (d\<lparr>activated := False\<rparr>,
                             emit (Store_activated False) (emit (Jack_deactivate c) w))
                       else (d, w));
         let (d, w) = (if transfer_thread_started d
                       then (d\<lparr>transfer_thread_started := False\<rparr>,
                             emit (Pthread_join (transfer_thread d)) w)
                       else (d, w));
         (d, w) \<leftarrow> unregister_ports (d, w);
         let w = emit (Jack_client_close c) w;
         let d = d\<lparr>jack_client := None\<rparr>;
         destroy_rb (d, w)
       }))"

section \<open>Reading the ring buffer out of memory\<close>

text \<open>
  The claims speak of slots, their samples and their release. These functions read
  that view out of the heap; the code above does not use them.
\<close>

text \<open>The addresses of a slot's sample arrays (\<open>None\<close> when a channel pointer is
  null or the channel array is not allocated).\<close>

definition slot_channels :: "world \<Rightarrow> jack_ring_buffer_item \<Rightarrow> addr list option" where
  "slot_channels w item = Option.bind (load_channels w (buffer item)) those"

text \<open>A slot's samples, channel by channel.\<close>

definition slot_samples ::
  "world \<Rightarrow> jack_ring_buffer_item \<Rightarrow> jack_default_audio_sample_t list list option" where
  "slot_samples w item = do {
     ss \<leftarrow> slot_channels w item;
     those (map (\<lambda>s. load_samples w (Some s)) ss)
   }"

text \<open>What a slot holds: its samples, frame count and timestamp.\<close>

definition slot_contents ::
  "world \<Rightarrow> jack_ring_buffer_item \<Rightarrow>
   (jack_default_audio_sample_t list list \<times> jack_nframes_t \<times> jack_time_t) option" where
  "slot_contents w item = do {
     samples \<leftarrow> slot_samples w item;
     Some (samples, nframes item, timestamp item)
   }"

text \<open>The ring buffer's contents, slot by slot.\<close>

definition ring_buffer ::
  "state \<Rightarrow> (jack_default_audio_sample_t list list \<times> jack_nframes_t \<times> jack_time_t) list option" where
  "ring_buffer s = (case s of (d, w) \<Rightarrow> do {
     items \<leftarrow> load_items w (rb d);
     those (map (slot_contents w) items)
   })"

text \<open>A slot's layout: the address of its channel array and the addresses of its
  sample arrays.\<close>

definition slot_layout :: "world \<Rightarrow> jack_ring_buffer_item \<Rightarrow> (addr \<times> addr list) option" where
  "slot_layout w item = do {
     b \<leftarrow> buffer item;
     ss \<leftarrow> slot_channels w item;
     Some (b, ss)
   }"

definition rb_layout :: "state \<Rightarrow> (addr \<times> addr list) list option" where
  "rb_layout s = (case s of (d, w) \<Rightarrow> do {
     items \<leftarrow> load_items w (rb d);
     those (map (slot_layout w) items)
   })"

text \<open>The blocks of one slot and of the whole ring buffer, in the order in which
  \<open>destroy_rb\<close> frees them.\<close>

definition slot_blocks :: "addr \<times> addr list \<Rightarrow> addr list" where
  "slot_blocks l = snd l @ [fst l]"

definition rb_blocks :: "state \<Rightarrow> addr list" where
  "rb_blocks s =
     (case (rb (fst s), rb_layout s) of
        (Some a, Some lay) \<Rightarrow> concat (map slot_blocks lay) @ [a]
      | _ \<Rightarrow> [])"

text \<open>
  A ring buffer as \<open>create_rb\<close> leaves it: \<open>rb_items\<close> slots, each with
  \<open>channels\<close> sample arrays of \<open>rb_buffer_size\<close> samples, all in blocks of their own
  that the allocator has handed out (they lie below \<open>next_addr\<close>).
\<close>

definition rb_valid :: "state \<Rightarrow> bool" where
  "rb_valid s = (case s of (d, w) \<Rightarrow>
     (case rb_layout (d, w) of
        None \<Rightarrow> False
      | Some lay \<Rightarrow>
          length lay = unat (rb_items d) \<and>
          list_all (\<lambda>l. length (snd l) = unat (channels d) \<and>
                        list_all (\<lambda>s. case load_samples w (Some s) of
                                        None \<Rightarrow> False
                                      | Some xs \<Rightarrow> length xs = unat (rb_buffer_size d))
                                 (snd l)) lay \<and>
          distinct (rb_blocks (d, w)) \<and>
          list_all (\<lambda>x. x < next_addr w) (rb_blocks (d, w))))"

section \<open>Reading the trace and the cursors\<close>

text \<open>
  The events by which a session is taken down: the calls of \<open>deactivate_jack\<close>,
  \<open>unregister_ports\<close> and \<open>destroy_rb\<close> that release something, and the store that
  clears the activation flag.
\<close>

fun teardown :: "event \<Rightarrow> bool" where
  "teardown (Jack_deactivate c) = True"
| "teardown (Jack_port_unregister c p) = True"
| "teardown (Jack_client_close c) = True"
| "teardown (Pthread_join t) = True"
| "teardown (Bfree a) = True"
| "teardown (Store_activated b) = (\<not> b)"
| "teardown _ = False"

text \<open>A call of \<open>jack_init\<close> whose answer sends it to the label \<open>error\<close>.\<close>

fun call_failed :: "env \<Rightarrow> event \<Rightarrow> bool" where
  "call_failed e (Jack_client_open dev opt) = (jack_client_open e dev opt = None)"
| "call_failed e (Jack_port_register c name) = (jack_port_register e c name = None)"
| "call_failed e (Jack_set_buffer_size_callback c) = (jack_set_buffer_size_callback e c \<noteq> 0)"
| "call_failed e (Jack_set_process_callback c) = (jack_set_process_callback e c \<noteq> 0)"
| "call_failed e (Jack_activate c) = (jack_activate e c \<noteq> 0)"
| "call_failed e Pthread_create = (pthread_create e = None)"
| "call_failed e _ = False"

text \<open>A trace that ends with a failed call, and in which no earlier call failed.\<close>

definition stopped_at_failure :: "env \<Rightarrow> event list \<Rightarrow> bool" where
  "stopped_at_failure e evs \<longleftrightarrow>
     evs \<noteq> [] \<and> call_failed e (last evs) \<and> list_all (\<lambda>ev. \<not> call_failed e ev) (butlast evs)"

text \<open>
  The three operations that touch the cursors of a live session, each run to
  completion: the process callback on the session, one iteration of the worker's
  loop, and the buffer-size callback.
\<close>

datatype operation = Producer_write jack_nframes_t | Consumer_read | Resize jack_nframes_t

fun run :: "env \<Rightarrow> operation \<Rightarrow> state \<Rightarrow> state option" where
  "run e (Producer_write nf) s = Option.bind (jack_process_callback e nf (Some s)) snd"
| "run e Consumer_read s = jack_transfer_worker_body e s"
| "run e (Resize nf) s = map_option snd (jack_buffer_size_callback e nf s)"

text \<open>\<open>LONG_MAX\<close> of a 64-bit \<open>long\<close>.\<close>

definition LONG_MAX :: long where
  "LONG_MAX = 0x7FFFFFFFFFFFFFFF"

section \<open>An example session\<close>

text \<open>
  A stereo session on an engine that reports 4 frames per second and periods of 2
  frames, so the ring buffer has 2 slots. The port array is block 0, the slot array
  block 1, and the slots' channel and sample arrays blocks 2 to 7. In \<open>ex_world\<close> one
  period has been written to slot 0 and not yet been read.
\<close>

definition ex_env :: env where
  "ex_env =
     \<lparr>jack_client_open = (\<lambda>_ _. Some 7),
      jack_port_register = (\<lambda>_ name. if name = ''in_1'' then Some 11 else Some 12),
      jack_set_buffer_size_callback = (\<lambda>_. 0),
      jack_set_process_callback = (\<lambda>_. 0),
      jack_activate = (\<lambda>_. 0),
      pthread_create = Some 3,
      jack_get_buffer_size = (\<lambda>_. 2),
      jack_get_sample_rate = (\<lambda>_. 4),
      jack_port_get_buffer = (\<lambda>p _. if p = 11 then [5, 6] else [7, 8]),
      jack_last_frame_time = (\<lambda>_. 100),
      jack_frames_to_time = (\<lambda>_ t. ucast t * 10)\<rparr>"

definition ex_data :: jack_data where
  "ex_data =
     \<lparr>source = 1, device = ''dev'', channels = 2, start_jack_server = False,
      speakers = SPEAKERS_UNKNOWN, jack_client = Some 7, jack_ports = Some 0,
      activated = True, rb = Some 1, rb_buffer_size = 2, rb_items = 2,
      rb_read = 0, rb_write = 1, transfer_thread = 3, transfer_thread_started = True\<rparr>"

definition ex_mem0 :: "addr \<Rightarrow> block option" where
  "ex_mem0 = (\<lambda>_. None)
     (0 \<mapsto> Ports [Some 11, Some 12],
      1 \<mapsto> Items [\<lparr>buffer = Some 2, nframes = 0, timestamp = 0\<rparr>,
                  \<lparr>buffer = Some 5, nframes = 0, timestamp = 0\<rparr>],
      2 \<mapsto> Channels [Some 3, Some 4],
      3 \<mapsto> Samples [0, 0],
      4 \<mapsto> Samples [0, 0],
      5 \<mapsto> Channels [Some 6, Some 7],
      6 \<mapsto> Samples [0, 0],
      7 \<mapsto> Samples [0, 0])"

definition ex_mem :: "addr \<Rightarrow> block option" where
  "ex_mem = (\<lambda>_. None)
     (0 \<mapsto> Ports [Some 11, Some 12],
      1 \<mapsto> Items [\<lparr>buffer = Some 2, nframes = 2, timestamp = 1000\<rparr>,
                  \<lparr>buffer = Some 5, nframes = 0, timestamp = 0\<rparr>],
      2 \<mapsto> Channels [Some 3, Some 4],
      3 \<mapsto> Samples [5, 6],
      4 \<mapsto> Samples [7, 8],
      5 \<mapsto> Channels [Some 6, Some 7],
      6 \<mapsto> Samples [0, 0],
      7 \<mapsto> Samples [0, 0])"

definition ex_world0 :: world where
  "ex_world0 = \<lparr>mem = ex_mem0, next_addr = 8, trace = []\<rparr>"

definition ex_world :: world where
  "ex_world = \<lparr>mem = ex_mem, next_addr = 8, trace = []\<rparr>"

text \<open>The same engine after it has switched to periods of 1 frame.\<close>

definition ex_env_resized :: env where
  "ex_env_resized = ex_env\<lparr>jack_get_buffer_size := (\<lambda>_. 1)\<rparr>"

text \<open>
  The session before \<open>jack_init\<close>: no client, nothing allocated, nothing traced.
  \<open>ex_init_trace\<close> is what a startup of it on \<open>ex_env\<close> leaves in the trace.
\<close>

definition ex_data_closed :: jack_data where
  "ex_data_closed =
     \<lparr>source = 1, device = ''dev'', channels = 2, start_jack_server = False,
      speakers = SPEAKERS_UNKNOWN, jack_client = None, jack_ports = None,
      activated = False, rb = None, rb_buffer_size = 0, rb_items = 0,
      rb_read = 0, rb_write = 0, transfer_thread = 0, transfer_thread_started = False\<rparr>"

definition ex_world_empty :: world where
  "ex_world_empty = \<lparr>mem = (\<lambda>_. None), next_addr = 0, trace = []\<rparr>"

text \<open>The same engine on a system where \<open>pthread_create\<close> fails.\<close>

definition ex_env_no_thread :: env where
  "ex_env_no_thread = ex_env\<lparr>pthread_create := None\<rparr>"

definition ex_init_trace :: "event list" where
  "ex_init_trace =
     [Jack_client_open ''dev'' JackNoStartServer, Bzalloc 0,
      Jack_port_register 7 ''in_1'', Jack_port_register 7 ''in_2'',
      Jack_set_buffer_size_callback 7, Jack_set_process_callback 7,
      Bzalloc 1, Bzalloc 2, Bzalloc 3, Bzalloc 4, Bzalloc 5, Bzalloc 6, Bzalloc 7,
      Store_long Rb_read 0, Store_long Rb_write 0,
      Jack_activate 7, Store_activated True, Pthread_create]"

section \<open>Basic facts\<close>

subsection \<open>Loops, lists of options, cursors\<close>

lemma for_loop_append:
  "for_loop (xs @ ys) body s = Option.bind (for_loop xs body s) (for_loop ys body)"
  by (induction xs arbitrary: s) (auto split: Option.bind_split)

lemma for_loop_single: "for_loop [k] body = body k"
proof
  fix s show "for_loop [k] body s = body k s" by (cases "body k s") simp_all
qed

lemma for_loop_snoc:
  "for_loop (xs @ [k]) body s = Option.bind (for_loop xs body s) (body k)"
  by (simp add: for_loop_append for_loop_single)

lemma those_eq_Some_iff: "those xs = Some ys \<longleftrightarrow> xs = map Some ys"
  by (induction xs arbitrary: ys) (auto split: option.splits)

lemma map_eq_map_Some_iff:
  "map f xs = map Some ys \<longleftrightarrow>
     length xs = length ys \<and> (\<forall>i<length ys. f (xs ! i) = Some (ys ! i))"
  by (auto simp: list_eq_iff_nth_eq)

lemma upt_0_2: "[0..<2] = [0, 1]"
  by code_simp

lemma distinct_concat_disjoint:
  "distinct (concat xss) \<Longrightarrow> i < j \<Longrightarrow> j < length xss \<Longrightarrow> set (xss ! i) \<inter> set (xss ! j) = {}"
proof (induction xss arbitrary: i j)
  case Nil
  then show ?case by simp
next
  case (Cons xs xss)
  show ?case
  proof (cases i)
    case 0
    with Cons.prems obtain j' where j': "j = Suc j'" "j' < length xss" by (cases j) auto
    then have "set (xss ! j') \<subseteq> set (concat xss)" using nth_mem by fastforce
    with Cons.prems(1) 0 j' show ?thesis by auto
  next
    case (Suc i')
    with Cons.prems obtain j' where j': "j = Suc j'" "j' < length xss" "i' < j'" by (cases j) auto
    with Cons.IH [of i' j'] Cons.prems(1) Suc show ?thesis by simp
  qed
qed

lemma distinct_concat_nth:
  "distinct (concat xss) \<Longrightarrow> i < length xss \<Longrightarrow> distinct (xss ! i)"
  by (induction xss arbitrary: i) (auto simp: nth_Cons split: nat.splits)

lemma replicate_numeral: "replicate (numeral k) x = x # replicate (pred_numeral k) x"
  by (simp add: numeral_eq_Suc)

lemma unat_capacity:
  fixes R P :: "32 word"
  shows "unat (ucast (R div P) :: 64 word) = unat R div unat P"
proof -
  have "uint (ucast (R div P) :: 64 word) = uint (R div P)"
    by (rule uint_up_ucast) (simp add: is_up)
  then have "unat (ucast (R div P) :: 64 word) = unat (R div P)"
    by (metis unat_eq_nat_uint)
  then show ?thesis by (simp add: unat_div)
qed

text \<open>A cursor that is not negative is its own unsigned value, so the slot index the
  code computes in \<open>unsigned long\<close> is the cursor modulo the capacity.\<close>

lemma sle_unat:
  fixes x :: "'a::len word"
  assumes "0 \<le>s x"
  shows "unat x = nat (sint x)"
proof -
  have nonneg: "0 \<le> sint x" using assms by (simp add: word_sle_eq)
  have "sint x < 2 ^ (LENGTH('a) - 1)" by (rule sint_lt)
  also have "\<dots> \<le> (2 :: int) ^ LENGTH('a)" by (rule power_increasing) simp_all
  finally have "take_bit LENGTH('a) (sint x) = sint x"
    using nonneg by (intro take_bit_int_eq_self) simp_all
  then have "uint x = sint x" by (simp add: uint_sint)
  then show ?thesis by (metis unat_eq_nat_uint)
qed

lemma cursor_index:
  fixes c n :: "64 word"
  assumes "0 \<le>s c"
  shows "unat (c mod n) = nat (sint c) mod unat n"
  by (simp add: unat_mod sle_unat [OF assms])

subsection \<open>Memory\<close>

lemma load_items_Some:
  "load_items w p = Some xs \<longleftrightarrow> (\<exists>a. p = Some a \<and> mem w a = Some (Items xs))"
  by (auto simp: load_items_def split: option.splits block.splits)

lemma load_channels_Some:
  "load_channels w p = Some xs \<longleftrightarrow> (\<exists>a. p = Some a \<and> mem w a = Some (Channels xs))"
  by (auto simp: load_channels_def split: option.splits block.splits)

lemma load_samples_Some:
  "load_samples w p = Some xs \<longleftrightarrow> (\<exists>a. p = Some a \<and> mem w a = Some (Samples xs))"
  by (auto simp: load_samples_def split: option.splits block.splits)

lemma load_ports_Some:
  "load_ports w p = Some xs \<longleftrightarrow> (\<exists>a. p = Some a \<and> mem w a = Some (Ports xs))"
  by (auto simp: load_ports_def split: option.splits block.splits)

lemma load_samples_case:
  "(case load_samples w (Some s) of None \<Rightarrow> False | Some xs \<Rightarrow> length xs = n) \<longleftrightarrow>
     (\<exists>xs. mem w s = Some (Samples xs) \<and> length xs = n)"
  by (auto simp: load_samples_def split: option.splits block.splits)

lemma update_item_Some:
  "mem w a = Some (Items items) \<Longrightarrow> k < length items \<Longrightarrow>
   update_item (Some a) k f w = Some (w\<lparr>mem := (mem w)(a \<mapsto> Items (items[k := f (items ! k)]))\<rparr>)"
  by (simp add: update_item_def load_items_def guard_def)

lemma load_cong:
  assumes "mem w' = mem w"
  shows "load_items w' = load_items w" "load_channels w' = load_channels w"
    "load_samples w' = load_samples w" "load_ports w' = load_ports w"
  by (auto simp: fun_eq_iff load_items_def load_channels_def load_samples_def load_ports_def
      assms split: option.splits)

subsection \<open>The ring buffer in memory\<close>

lemma slot_channels_Some:
  "slot_channels w item = Some ss \<longleftrightarrow>
     (\<exists>b. buffer item = Some b \<and> mem w b = Some (Channels (map Some ss)))"
  by (auto simp: slot_channels_def bind_eq_Some_conv load_channels_Some those_eq_Some_iff)

lemma slot_layout_Some:
  "slot_layout w item = Some l \<longleftrightarrow>
     buffer item = Some (fst l) \<and> mem w (fst l) = Some (Channels (map Some (snd l)))"
  by (cases l) (auto simp: slot_layout_def bind_eq_Some_conv slot_channels_Some)

lemma rb_layout_Some:
  "rb_layout (d, w) = Some lay \<longleftrightarrow>
     (\<exists>a items. rb d = Some a \<and> mem w a = Some (Items items) \<and> length items = length lay \<and>
        (\<forall>i<length lay. buffer (items ! i) = Some (fst (lay ! i)) \<and>
           mem w (fst (lay ! i)) = Some (Channels (map Some (snd (lay ! i))))))"
  by (auto simp: rb_layout_def bind_eq_Some_conv load_items_Some those_eq_Some_iff
      map_eq_map_Some_iff slot_layout_Some)

lemma slot_contents_Some:
  "slot_contents w item = Some c \<longleftrightarrow>
     slot_samples w item = Some (fst c) \<and> nframes item = fst (snd c) \<and>
     timestamp item = snd (snd c)"
  by (cases c) (auto simp: slot_contents_def bind_eq_Some_conv)

lemma ring_buffer_Some:
  "ring_buffer (d, w) = Some slots \<longleftrightarrow>
     (\<exists>a items. rb d = Some a \<and> mem w a = Some (Items items) \<and> length items = length slots \<and>
        (\<forall>i<length slots. slot_contents w (items ! i) = Some (slots ! i)))"
  by (auto simp: ring_buffer_def bind_eq_Some_conv load_items_Some those_eq_Some_iff
      map_eq_map_Some_iff)

lemma rb_valid_iff:
  "rb_valid (d, w) \<longleftrightarrow>
     (\<exists>lay a. rb d = Some a \<and> rb_layout (d, w) = Some lay \<and> length lay = unat (rb_items d) \<and>
        (\<forall>l\<in>set lay. length (snd l) = unat (channels d) \<and>
           (\<forall>s\<in>set (snd l). \<exists>xs. mem w s = Some (Samples xs) \<and>
                                  length xs = unat (rb_buffer_size d))) \<and>
        distinct (concat (map slot_blocks lay) @ [a]) \<and>
        (\<forall>x\<in>set (concat (map slot_blocks lay) @ [a]). x < next_addr w))"
proof (cases "rb_layout (d, w)")
  case None
  then show ?thesis by (simp add: rb_valid_def)
next
  case (Some lay)
  then obtain a where a: "rb d = Some a" by (auto simp: rb_layout_Some)
  show ?thesis
    unfolding rb_valid_def rb_blocks_def
    by (simp add: Some a list_all_iff load_samples_case)
qed

lemma rb_valid_blocks:
  assumes "distinct (concat (map slot_blocks lay) @ [a])" "i < length lay"
  shows "distinct (snd (lay ! i))" "fst (lay ! i) \<notin> set (snd (lay ! i))"
    "a \<notin> set (snd (lay ! i))" "a \<noteq> fst (lay ! i)"
    "\<And>j. j < length lay \<Longrightarrow> j \<noteq> i \<Longrightarrow>
       set (slot_blocks (lay ! i)) \<inter> set (slot_blocks (lay ! j)) = {}"
proof -
  have d: "distinct (concat (map slot_blocks lay))" and a: "a \<notin> set (concat (map slot_blocks lay))"
    using assms(1) by auto
  have "distinct (map slot_blocks lay ! i)"
    using d assms(2) by (intro distinct_concat_nth) simp_all
  then have di: "distinct (slot_blocks (lay ! i))" using assms(2) by simp
  then show "distinct (snd (lay ! i))" "fst (lay ! i) \<notin> set (snd (lay ! i))"
    by (simp_all add: slot_blocks_def)
  have "set (slot_blocks (lay ! i)) \<subseteq> set (concat (map slot_blocks lay))"
    using assms(2) nth_mem by fastforce
  with a have "a \<notin> set (slot_blocks (lay ! i))" by auto
  then show "a \<notin> set (snd (lay ! i))" "a \<noteq> fst (lay ! i)"
    by (auto simp: slot_blocks_def)
  fix j assume j: "j < length lay" "j \<noteq> i"
  show "set (slot_blocks (lay ! i)) \<inter> set (slot_blocks (lay ! j)) = {}"
  proof (cases "i < j")
    case True
    with distinct_concat_disjoint [OF d, of i j] j assms(2) show ?thesis by simp
  next
    case False
    with j have "j < i" by simp
    with distinct_concat_disjoint [OF d, of j i] j assms(2) show ?thesis by auto
  qed
qed

lemma those_load_samples:
  "those (map (\<lambda>s. load_samples w (Some s)) ss) = Some xss \<longleftrightarrow>
     length xss = length ss \<and> (\<forall>j<length ss. mem w (ss ! j) = Some (Samples (xss ! j)))"
  by (auto simp: those_eq_Some_iff map_eq_map_Some_iff load_samples_Some)

lemma slot_samples_Some:
  "slot_samples w item = Some xss \<longleftrightarrow>
     (\<exists>b ss. buffer item = Some b \<and> mem w b = Some (Channels (map Some ss)) \<and>
        length xss = length ss \<and> (\<forall>j<length ss. mem w (ss ! j) = Some (Samples (xss ! j))))"
  by (auto simp: slot_samples_def bind_eq_Some_conv slot_channels_Some those_load_samples)

lemma slot_cong:
  assumes "mem w' = mem w"
  shows "slot_layout w' = slot_layout w" "slot_contents w' = slot_contents w"
  by (simp_all add: fun_eq_iff slot_layout_def slot_contents_def slot_samples_def
      slot_channels_def load_cong [OF assms])

lemma rb_layout_cong:
  assumes "rb d' = rb d" "mem w' = mem w"
  shows "rb_layout (d', w') = rb_layout (d, w)"
  by (simp add: rb_layout_def load_cong [OF assms(2)] slot_cong [OF assms(2)] assms(1))

lemma rb_blocks_cong:
  assumes "rb d' = rb d" "mem w' = mem w"
  shows "rb_blocks (d', w') = rb_blocks (d, w)"
  by (simp add: rb_blocks_def rb_layout_cong [OF assms] assms(1))

lemma ring_buffer_cong:
  assumes "rb d' = rb d" "mem w' = mem w"
  shows "ring_buffer (d', w') = ring_buffer (d, w)"
  by (simp add: ring_buffer_def load_cong [OF assms(2)] slot_cong [OF assms(2)] assms(1))

lemma rb_valid_cong:
  assumes "rb d' = rb d" "rb_items d' = rb_items d" "channels d' = channels d"
    "rb_buffer_size d' = rb_buffer_size d" "mem w' = mem w" "next_addr w' = next_addr w"
  shows "rb_valid (d', w') = rb_valid (d, w)"
  unfolding rb_valid_def prod.case rb_layout_cong [OF assms(1,5)] rb_blocks_cong [OF assms(1,5)]
    load_cong [OF assms(5)] assms(2,3,4,6)
  by (rule refl)

subsection \<open>The example session\<close>

lemma ex_layout: "rb_layout (ex_data, ex_world) = Some [(2, [3, 4]), (5, [6, 7])]"
  by (simp add: rb_layout_def load_items_def ex_data_def ex_world_def ex_mem_def slot_layout_def
      slot_channels_def load_channels_def)

lemma ex_ring_buffer:
  "ring_buffer (ex_data, ex_world) = Some [([[5, 6], [7, 8]], 2, 1000), ([[0, 0], [0, 0]], 0, 0)]"
  by (simp add: ring_buffer_def load_items_def ex_data_def ex_world_def ex_mem_def
      slot_contents_def slot_samples_def slot_channels_def load_channels_def load_samples_def)

lemma ex_valid: "rb_valid (ex_data, ex_world)"
  by (simp add: rb_valid_def rb_blocks_def ex_layout)
     (simp add: ex_data_def ex_world_def ex_mem_def load_samples_def slot_blocks_def)

lemma ex_process:
  "jack_process_callback ex_env 2 (Some (ex_data\<lparr>rb_write := 0\<rparr>, ex_world0)) =
   Some (0, Some (ex_data, ex_world\<lparr>trace := [Os_atomic_inc_long Rb_write]\<rparr>))"
  by (simp add: jack_process_callback_def ex_data_def ex_world_def ex_world0_def ex_env_def
      guard_def copy_port_def load_ports_def load_items_def load_channels_def load_samples_def
      index_def memcpy_def update_item_def emit_def ex_mem0_def ex_mem_def fun_eq_iff upt_0_2)

lemma ex0_layout: "rb_layout (ex_data\<lparr>rb_write := 0\<rparr>, ex_world0) = Some [(2, [3, 4]), (5, [6, 7])]"
  by (simp add: rb_layout_def load_items_def ex_data_def ex_world0_def ex_mem0_def slot_layout_def
      slot_channels_def load_channels_def)

lemma ex0_ring_buffer:
  "ring_buffer (ex_data\<lparr>rb_write := 0\<rparr>, ex_world0) =
     Some [([[0, 0], [0, 0]], 0, 0), ([[0, 0], [0, 0]], 0, 0)]"
  by (simp add: ring_buffer_def load_items_def ex_data_def ex_world0_def ex_mem0_def
      slot_contents_def slot_samples_def slot_channels_def load_channels_def load_samples_def)

lemma ex0_valid: "rb_valid (ex_data\<lparr>rb_write := 0\<rparr>, ex_world0)"
  by (simp add: rb_valid_def rb_blocks_def ex0_layout)
     (simp add: ex_data_def ex_world0_def ex_mem0_def load_samples_def slot_blocks_def)

lemma ex_blocks: "rb_blocks (ex_data, ex_world) = [3, 4, 2, 6, 7, 5, 1]"
  by (simp add: rb_blocks_def ex_layout) (simp add: ex_data_def slot_blocks_def)

subsection \<open>The worker's plane loop\<close>

lemma collect_loop:
  assumes "mem w a = Some (Items items)" "k < length items" "buffer (items ! k) = Some b"
    "mem w b = Some (Channels (map Some ss))" "length ss \<le> MAX_AV_PLANES" "n \<le> length ss"
  shows "for_loop [0..<n] (\<lambda>i out_data. do {
           guard (i < MAX_AV_PLANES);
           items \<leftarrow> load_items w (Some a);
           item \<leftarrow> index items k;
           chans \<leftarrow> load_channels w (buffer item);
           p \<leftarrow> index chans i;
           Some (out_data @ [p])
         }) [] = Some (map Some (take n ss))"
  using assms(6)
proof (induction n)
  case 0
  then show ?case by simp
next
  case (Suc n)
  then show ?case using assms(1-5)
    by (simp add: for_loop_snoc guard_def load_items_def load_channels_def index_def
        take_Suc_conv_app_nth)
qed

subsection \<open>The producer's copy loop\<close>

lemma copy_loop:
  assumes "rb d = Some a" "mem w a = Some (Items items)" "k < length items"
    "buffer (items ! k) = Some b" "mem w b = Some (Channels (map Some ss))"
    "jack_ports d = Some pa" "mem w pa = Some (Ports (map Some ports))"
    "distinct ss"
    "\<forall>s\<in>set ss. \<exists>xs. mem w s = Some (Samples xs) \<and> unat nf \<le> length xs"
    "\<forall>p\<in>set ports. unat nf \<le> length (jack_port_get_buffer e p nf)"
    "m \<le> length ss" "m \<le> length ports"
  shows "\<exists>w'. for_loop [0..<m] (copy_port e d k nf) w = Some w' \<and>
           trace w' = trace w \<and> next_addr w' = next_addr w \<and>
           (\<forall>x. x \<notin> set (take m ss) \<longrightarrow> mem w' x = mem w x) \<and>
           (\<forall>i<m. \<exists>old. mem w (ss ! i) = Some (Samples old) \<and>
              mem w' (ss ! i) =
                Some (Samples (take (unat nf) (jack_port_get_buffer e (ports ! i) nf) @
                               drop (unat nf) old)))"
  using assms(11,12)
proof (induction m)
  case 0
  then show ?case by simp
next
  case (Suc m)
  then obtain w' where loop: "for_loop [0..<m] (copy_port e d k nf) w = Some w'"
    and tr: "trace w' = trace w" "next_addr w' = next_addr w"
    and frame: "\<forall>x. x \<notin> set (take m ss) \<longrightarrow> mem w' x = mem w x"
    and copied: "\<forall>i<m. \<exists>old. mem w (ss ! i) = Some (Samples old) \<and>
              mem w' (ss ! i) =
                Some (Samples (take (unat nf) (jack_port_get_buffer e (ports ! i) nf) @
                               drop (unat nf) old))"
    by auto
  from Suc.prems have m: "m < length ss" "m < length ports" by simp_all
  have typed: "\<And>x. x \<in> set ss \<Longrightarrow> \<exists>xs. mem w x = Some (Samples xs)"
    using assms(9) by blast
  have "a \<notin> set ss" "b \<notin> set ss" "pa \<notin> set ss"
    using typed assms(2,5,7) by fastforce+
  then have "a \<notin> set (take m ss)" "b \<notin> set (take m ss)" "pa \<notin> set (take m ss)"
    by (auto dest: in_set_takeD)
  with frame assms(2,5,7) have same:
    "mem w' a = Some (Items items)" "mem w' b = Some (Channels (map Some ss))"
    "mem w' pa = Some (Ports (map Some ports))"
    by simp_all
  have "ss ! m \<notin> set (take m ss)"
    using assms(8) m(1) by (auto simp: in_set_conv_nth nth_eq_iff_index_eq)
  with frame have cur: "mem w' (ss ! m) = mem w (ss ! m)" by simp
  from assms(9) m(1) obtain old where old: "mem w (ss ! m) = Some (Samples old)" "unat nf \<le> length old"
    by (meson nth_mem)
  have buf: "unat nf \<le> length (jack_port_get_buffer e (ports ! m) nf)"
    using assms(10) m(2) by simp
  define w'' where "w'' = w'\<lparr>mem := (mem w')(ss ! m \<mapsto> Samples (take (unat nf) (jack_port_get_buffer e (ports ! m) nf) @ drop (unat nf) old))\<rparr>"
  have step: "copy_port e d k nf m w' = Some w''"
    using same cur old buf m assms(1,3,4,6)
    by (simp add: copy_port_def load_ports_def load_items_def load_channels_def load_samples_def
        index_def memcpy_def guard_def w''_def)
  have "for_loop [0..<Suc m] (copy_port e d k nf) w = Some w''"
    by (simp add: for_loop_snoc loop step)
  moreover have "trace w'' = trace w" "next_addr w'' = next_addr w"
    by (simp_all add: w''_def tr)
  moreover have "\<forall>x. x \<notin> set (take (Suc m) ss) \<longrightarrow> mem w'' x = mem w x"
    using frame m(1) by (auto simp: w''_def take_Suc_conv_app_nth)
  moreover have "\<forall>i<Suc m. \<exists>old. mem w (ss ! i) = Some (Samples old) \<and>
              mem w'' (ss ! i) =
                Some (Samples (take (unat nf) (jack_port_get_buffer e (ports ! i) nf) @
                               drop (unat nf) old))"
  proof (intro allI impI)
    fix i assume "i < Suc m"
    show "\<exists>old. mem w (ss ! i) = Some (Samples old) \<and>
              mem w'' (ss ! i) =
                Some (Samples (take (unat nf) (jack_port_get_buffer e (ports ! i) nf) @
                               drop (unat nf) old))"
    proof (cases "i = m")
      case True
      then show ?thesis using old by (simp add: w''_def)
    next
      case False
      with \<open>i < Suc m\<close> have i: "i < m" by simp
      then have "ss ! i \<noteq> ss ! m" using assms(8) m(1) by (simp add: nth_eq_iff_index_eq)
      then show ?thesis using copied i by (simp add: w''_def)
    qed
  qed
  ultimately show ?case by blast
qed

subsection \<open>\<open>create_rb\<close>: what the two allocation loops leave\<close>

lemma create_channels_loop:
  assumes "rb d = Some a" "mem w a = Some (Items items)" "i < length items"
    "buffer (items ! i) = Some b" "mem w b = Some (Channels cs)"
    "a < next_addr w" "b < next_addr w" "m \<le> length cs"
  shows "for_loop [0..<m] (create_rb_channel d i) w =
     Some (w\<lparr>mem := (\<lambda>x. if x = b then Some (Channels (map (\<lambda>j. Some (next_addr w + j)) [0..<m] @ drop m cs))
                      else if next_addr w \<le> x \<and> x < next_addr w + m
                        then Some (Samples (replicate (unat (rb_buffer_size d)) 0))
                      else mem w x),
            next_addr := next_addr w + m,
            trace := trace w @ map Bzalloc [next_addr w..<next_addr w + m]\<rparr>)"
  using assms(8)
proof (induction m)
  case 0
  show ?case using assms(5) by (cases w) (auto simp: fun_eq_iff)
next
  case (Suc m)
  have ab: "a \<noteq> b" using assms(2,5) by auto
  have m: "m < length cs" using Suc.prems by simp
  have upd: "(map (\<lambda>j. Some (next_addr w + j)) [0..<m] @ drop m cs)[m := Some (next_addr w + m)] =
      map (\<lambda>j. Some (next_addr w + j)) [0..<m] @ Some (next_addr w + m) # drop (Suc m) cs"
    using m by (simp add: list_update_append Cons_nth_drop_Suc [symmetric])
  show ?case
    using Suc assms(1-7) ab m
    by (simp add: for_loop_snoc create_rb_channel_def bzalloc_def load_items_def index_def
        store_channel_def load_channels_def guard_def upd fun_eq_iff)
qed

lemma create_rb_item_result:
  assumes "rb d = Some a" "mem w a = Some (Items items)" "i < length items" "a < next_addr w"
  shows "create_rb_item d i w =
     Some (w\<lparr>mem := (\<lambda>x. if x = a then Some (Items (items[i := (items ! i)\<lparr>buffer := Some (next_addr w)\<rparr>]))
                      else if x = next_addr w
                        then Some (Channels (map (\<lambda>j. Some (Suc (next_addr w) + j)) [0..<unat (channels d)]))
                      else if next_addr w < x \<and> x \<le> next_addr w + unat (channels d)
                        then Some (Samples (replicate (unat (rb_buffer_size d)) 0))
                      else mem w x),
            next_addr := Suc (next_addr w) + unat (channels d),
            trace := trace w @ map Bzalloc [next_addr w..<Suc (next_addr w) + unat (channels d)]\<rparr>)"
proof -
  define m where "m = next_addr w"
  define w1 where "w1 = w\<lparr>mem := (mem w)(m \<mapsto> Channels (replicate (unat (channels d)) None),
                                       a \<mapsto> Items (items[i := (items ! i)\<lparr>buffer := Some m\<rparr>])),
                          next_addr := Suc m, trace := trace w @ [Bzalloc m]\<rparr>"
  have am: "a \<noteq> m" using assms(4) by (simp add: m_def)
  have loop: "for_loop [0..<unat (channels d)] (create_rb_channel d i) w1 =
     Some (w1\<lparr>mem := (\<lambda>x. if x = m then Some (Channels (map (\<lambda>j. Some (next_addr w1 + j)) [0..<unat (channels d)] @ drop (unat (channels d)) (replicate (unat (channels d)) None)))
                      else if next_addr w1 \<le> x \<and> x < next_addr w1 + unat (channels d)
                        then Some (Samples (replicate (unat (rb_buffer_size d)) 0))
                      else mem w1 x),
            next_addr := next_addr w1 + unat (channels d),
            trace := trace w1 @ map Bzalloc [next_addr w1..<next_addr w1 + unat (channels d)]\<rparr>)"
    using assms am
    by (intro create_channels_loop [where a = a and items = "items[i := (items ! i)\<lparr>buffer := Some m\<rparr>]"])
       (simp_all add: w1_def m_def)
  have tr: "map Bzalloc [m..<Suc m + unat (channels d)] =
      Bzalloc m # map Bzalloc [Suc m..<Suc m + unat (channels d)]"
    by (simp add: upt_conv_Cons)
  have step: "create_rb_item d i w =
      for_loop [0..<unat (channels d)] (create_rb_channel d i) w1"
    using assms
    by (cases w)
       (simp add: create_rb_item_def bzalloc_def update_item_def load_items_def guard_def
        w1_def m_def)
  have mem_eq: "(\<lambda>x. if x = m then Some (Channels (map (\<lambda>j. Some (next_addr w1 + j)) [0..<unat (channels d)] @ drop (unat (channels d)) (replicate (unat (channels d)) None)))
                      else if next_addr w1 \<le> x \<and> x < next_addr w1 + unat (channels d)
                        then Some (Samples (replicate (unat (rb_buffer_size d)) 0))
                      else mem w1 x) =
     (\<lambda>x. if x = a then Some (Items (items[i := (items ! i)\<lparr>buffer := Some m\<rparr>]))
                      else if x = m
                        then Some (Channels (map (\<lambda>j. Some (Suc m + j)) [0..<unat (channels d)]))
                      else if m < x \<and> x \<le> m + unat (channels d)
                        then Some (Samples (replicate (unat (rb_buffer_size d)) 0))
                      else mem w x)"
    using am assms(4) by (auto simp: w1_def m_def fun_eq_iff)
  show ?thesis
    unfolding step loop mem_eq m_def [symmetric] tr
    by (simp add: w1_def)
qed

lemma create_items_loop:
  assumes "rb d = Some a"
    "mem w0 a = Some (Items (replicate n \<lparr>buffer = None, nframes = 0, timestamp = 0\<rparr>))"
    "a < next_addr w0" "k \<le> n"
  shows "\<exists>w lay. for_loop [0..<k] (create_rb_item d) w0 = Some w \<and> length lay = k \<and>
     mem w a = Some (Items (map (\<lambda>l. \<lparr>buffer = Some (fst l), nframes = 0, timestamp = 0\<rparr>) lay @
                            replicate (n - k) \<lparr>buffer = None, nframes = 0, timestamp = 0\<rparr>)) \<and>
     (\<forall>l\<in>set lay. mem w (fst l) = Some (Channels (map Some (snd l))) \<and>
        length (snd l) = unat (channels d) \<and>
        (\<forall>s\<in>set (snd l). mem w s = Some (Samples (replicate (unat (rb_buffer_size d)) 0)))) \<and>
     distinct (concat (map slot_blocks lay)) \<and>
     set (concat (map slot_blocks lay)) \<subseteq> {next_addr w0..<next_addr w} \<and>
     next_addr w0 \<le> next_addr w \<and>
     (\<forall>x. x < next_addr w0 \<and> x \<noteq> a \<longrightarrow> mem w x = mem w0 x) \<and>
     trace w = trace w0 @ map Bzalloc [next_addr w0..<next_addr w]"
  using assms(4)
proof (induction k)
  case 0
  show ?case using assms(2) by (intro exI [of _ w0] exI [of _ "[]"]) simp
next
  case (Suc k)
  define zero where "zero = \<lparr>buffer = None, nframes = 0, timestamp = 0\<rparr>"
  define ch where "ch = unat (channels d)"
  define zeros :: "jack_default_audio_sample_t list" where
    "zeros = replicate (unat (rb_buffer_size d)) 0"
  from Suc obtain w lay where loop: "for_loop [0..<k] (create_rb_item d) w0 = Some w"
    and len: "length lay = k"
    and items: "mem w a = Some (Items (map (\<lambda>l. \<lparr>buffer = Some (fst l), nframes = 0, timestamp = 0\<rparr>) lay @
                            replicate (n - k) zero))"
    and slots: "\<forall>l\<in>set lay. mem w (fst l) = Some (Channels (map Some (snd l))) \<and>
        length (snd l) = ch \<and> (\<forall>s\<in>set (snd l). mem w s = Some (Samples zeros))"
    and dist: "distinct (concat (map slot_blocks lay))"
    and range: "set (concat (map slot_blocks lay)) \<subseteq> {next_addr w0..<next_addr w}"
    and mono: "next_addr w0 \<le> next_addr w"
    and frame: "\<forall>x. x < next_addr w0 \<and> x \<noteq> a \<longrightarrow> mem w x = mem w0 x"
    and tr: "trace w = trace w0 @ map Bzalloc [next_addr w0..<next_addr w]"
    unfolding zero_def ch_def zeros_def by auto
  define m where "m = next_addr w"
  define items0 where "items0 =
    map (\<lambda>l. \<lparr>buffer = Some (fst l), nframes = 0, timestamp = 0\<rparr>) lay @ replicate (n - k) zero"
  define new where "new = (m, map (\<lambda>j. Suc m + j) [0..<ch])"
  define w' where "w' = w\<lparr>mem := (\<lambda>x. if x = a then Some (Items (items0[k := (items0 ! k)\<lparr>buffer := Some m\<rparr>]))
                      else if x = m then Some (Channels (map (\<lambda>j. Some (Suc m + j)) [0..<ch]))
                      else if m < x \<and> x \<le> m + ch then Some (Samples zeros)
                      else mem w x),
            next_addr := Suc m + ch,
            trace := trace w @ map Bzalloc [m..<Suc m + ch]\<rparr>"
  have k: "k < n" using Suc.prems by simp
  have am: "a < m" using assms(3) mono by (simp add: m_def)
  have "k < length items0" using k len by (simp add: items0_def)
  then have step: "create_rb_item d k w = Some w'"
    unfolding w'_def m_def ch_def zeros_def
    using am by (intro create_rb_item_result [OF assms(1) items [folded items0_def]])
      (simp_all add: m_def)
  have loop': "for_loop [0..<Suc k] (create_rb_item d) w0 = Some w'"
    by (simp add: for_loop_snoc loop step)
  have zero_k: "items0 ! k = zero" using k len by (simp add: items0_def nth_append)
  have rep: "replicate (n - k) zero = zero # replicate (n - Suc k) zero"
    using k by (cases "n - k") (simp_all add: Suc_diff_Suc)
  have items': "mem w' a = Some (Items (map (\<lambda>l. \<lparr>buffer = Some (fst l), nframes = 0, timestamp = 0\<rparr>) (lay @ [new]) @
                            replicate (n - Suc k) zero))"
  proof -
    have "items0[k := (items0 ! k)\<lparr>buffer := Some m\<rparr>] =
        map (\<lambda>l. \<lparr>buffer = Some (fst l), nframes = 0, timestamp = 0\<rparr>) (lay @ [new]) @
        replicate (n - Suc k) zero"
      unfolding zero_k unfolding items0_def rep
      using len by (simp add: list_update_append new_def zero_def)
    then show ?thesis by (simp add: w'_def)
  qed
  have old_lt: "\<And>x. x \<in> set (concat (map slot_blocks lay)) \<Longrightarrow> x < m \<and> x \<noteq> a"
    using range assms(3) by (auto simp: m_def)
  have keep: "mem w' x = mem w x" if "x \<in> set (concat (map slot_blocks lay))" for x
    using old_lt [OF that] by (simp add: w'_def)
  have slots': "\<forall>l\<in>set (lay @ [new]). mem w' (fst l) = Some (Channels (map Some (snd l))) \<and>
        length (snd l) = ch \<and> (\<forall>s\<in>set (snd l). mem w' s = Some (Samples zeros))"
  proof
    fix l assume "l \<in> set (lay @ [new])"
    then consider "l \<in> set lay" | "l = new" by auto
    then show "mem w' (fst l) = Some (Channels (map Some (snd l))) \<and>
        length (snd l) = ch \<and> (\<forall>s\<in>set (snd l). mem w' s = Some (Samples zeros))"
    proof cases
      case 1
      then have "set (slot_blocks l) \<subseteq> set (concat (map slot_blocks lay))" by auto
      then have "mem w' (fst l) = mem w (fst l)" "\<forall>s\<in>set (snd l). mem w' s = mem w s"
        using keep by (auto simp: slot_blocks_def)
      then show ?thesis using slots 1 by simp
    next
      case 2
      then show ?thesis using am by (auto simp: new_def w'_def comp_def)
    qed
  qed
  have dist_new: "distinct (slot_blocks new)"
    by (auto simp: slot_blocks_def new_def distinct_map inj_on_def)
  have new_ge: "\<And>x. x \<in> set (slot_blocks new) \<Longrightarrow> m \<le> x \<and> x < Suc m + ch"
    by (auto simp: slot_blocks_def new_def)
  have dist': "distinct (concat (map slot_blocks (lay @ [new])))"
    using dist dist_new old_lt new_ge by fastforce
  have range': "set (concat (map slot_blocks (lay @ [new]))) \<subseteq> {next_addr w0..<next_addr w'}"
    using range new_ge mono by (fastforce simp: w'_def m_def)
  have mono': "next_addr w0 \<le> next_addr w'" using mono by (simp add: w'_def m_def)
  have frame': "\<forall>x. x < next_addr w0 \<and> x \<noteq> a \<longrightarrow> mem w' x = mem w0 x"
    using frame mono by (auto simp: w'_def m_def)
  have tr': "trace w' = trace w0 @ map Bzalloc [next_addr w0..<next_addr w']"
    using mono upt_add_eq_append [of "next_addr w0" m "Suc ch"]
    by (simp add: w'_def tr m_def [symmetric])
  show ?case
    using loop' len items' slots' dist' range' mono' frame' tr'
    unfolding zero_def ch_def zeros_def
    by (intro exI [of _ w'] exI [of _ "lay @ [new]"]) simp
qed

lemma create_rb_result:
  fixes d :: jack_data and w :: world and e :: env and c :: jack_client_t
  assumes client: "jack_client d = Some c" and nz: "jack_get_buffer_size e c \<noteq> 0"
  defines "d' \<equiv> d\<lparr>rb_buffer_size := jack_get_buffer_size e c,
                  rb_items := ucast (jack_get_sample_rate e c div jack_get_buffer_size e c),
                  rb := Some (next_addr w), rb_read := 0, rb_write := 0\<rparr>"
  shows "\<exists>w'. create_rb e (d, w) = Some (d', w') \<and> rb_valid (d', w') \<and>
     ring_buffer (d', w') =
       Some (replicate (unat (rb_items d'))
              (replicate (unat (channels d)) (replicate (unat (rb_buffer_size d')) 0), 0, 0)) \<and>
     set (rb_blocks (d', w')) \<subseteq> {next_addr w..<next_addr w'} \<and>
     (\<forall>x<next_addr w. mem w' x = mem w x) \<and>
     next_addr w < next_addr w' \<and>
     trace w' = trace w @ map Bzalloc [next_addr w..<next_addr w'] @
                [Store_long Rb_read 0, Store_long Rb_write 0]"
proof -
  define a where "a = next_addr w"
  define n where "n = unat (rb_items d')"
  define ch where "ch = unat (channels d)"
  define zero where "zero = \<lparr>buffer = None, nframes = 0, timestamp = 0\<rparr>"
  define zeros :: "jack_default_audio_sample_t list" where
    "zeros = replicate (unat (rb_buffer_size d')) 0"
  define d2 where "d2 = d\<lparr>rb_buffer_size := jack_get_buffer_size e c,
                  rb_items := ucast (jack_get_sample_rate e c div jack_get_buffer_size e c),
                  rb := Some a\<rparr>"
  define w0 where "w0 = w\<lparr>mem := (mem w)(a \<mapsto> Items (replicate n zero)),
                          next_addr := Suc a, trace := trace w @ [Bzalloc a]\<rparr>"
  have d2: "rb d2 = Some a" "unat (channels d2) = ch"
    "replicate (unat (rb_buffer_size d2)) 0 = zeros" "unat (rb_items d2) = n"
    by (simp_all add: d2_def ch_def zeros_def d'_def n_def)
  have "\<exists>w1 lay. for_loop [0..<n] (create_rb_item d2) w0 = Some w1 \<and> length lay = n \<and>
     mem w1 a = Some (Items (map (\<lambda>l. \<lparr>buffer = Some (fst l), nframes = 0, timestamp = 0\<rparr>) lay @
                            replicate (n - n) \<lparr>buffer = None, nframes = 0, timestamp = 0\<rparr>)) \<and>
     (\<forall>l\<in>set lay. mem w1 (fst l) = Some (Channels (map Some (snd l))) \<and>
        length (snd l) = unat (channels d2) \<and>
        (\<forall>s\<in>set (snd l). mem w1 s = Some (Samples (replicate (unat (rb_buffer_size d2)) 0)))) \<and>
     distinct (concat (map slot_blocks lay)) \<and>
     set (concat (map slot_blocks lay)) \<subseteq> {next_addr w0..<next_addr w1} \<and>
     next_addr w0 \<le> next_addr w1 \<and>
     (\<forall>x. x < next_addr w0 \<and> x \<noteq> a \<longrightarrow> mem w1 x = mem w0 x) \<and>
     trace w1 = trace w0 @ map Bzalloc [next_addr w0..<next_addr w1]"
    by (rule create_items_loop) (simp_all add: d2 w0_def zero_def)
  then obtain w1 lay where loop: "for_loop [0..<n] (create_rb_item d2) w0 = Some w1"
    and len: "length lay = n"
    and items: "mem w1 a = Some (Items (map (\<lambda>l. \<lparr>buffer = Some (fst l), nframes = 0, timestamp = 0\<rparr>) lay))"
    and slots: "\<forall>l\<in>set lay. mem w1 (fst l) = Some (Channels (map Some (snd l))) \<and>
        length (snd l) = ch \<and> (\<forall>s\<in>set (snd l). mem w1 s = Some (Samples zeros))"
    and dist: "distinct (concat (map slot_blocks lay))"
    and range: "set (concat (map slot_blocks lay)) \<subseteq> {Suc a..<next_addr w1}"
    and mono: "Suc a \<le> next_addr w1"
    and frame: "\<forall>x. x < Suc a \<and> x \<noteq> a \<longrightarrow> mem w1 x = mem w x"
    and tr: "trace w1 = trace w @ Bzalloc a # map Bzalloc [Suc a..<next_addr w1]"
    unfolding d2 by (auto simp: w0_def)
  define w' where "w' = w1\<lparr>trace := trace w1 @ [Store_long Rb_read 0, Store_long Rb_write 0]\<rparr>"
  have call: "create_rb e (d, w) = Some (d', w')"
    using nz loop
    by (simp add: create_rb_def client guard_def bzalloc_def Let_def emit_def
        d2_def w0_def n_def d'_def zero_def a_def w'_def)
  have lay: "rb_layout (d', w') = Some lay"
    unfolding rb_layout_Some
    using items slots
    by (intro exI [of _ a] exI [of _ "map (\<lambda>l. \<lparr>buffer = Some (fst l), nframes = 0, timestamp = 0\<rparr>) lay"])
       (simp add: d'_def a_def w'_def)
  have a_notin: "a \<notin> set (concat (map slot_blocks lay))" using range by auto
  have valid: "rb_valid (d', w')"
    unfolding rb_valid_iff
    using lay len slots dist a_notin range mono
    by (intro exI [of _ lay] exI [of _ a])
       (simp add: n_def w'_def zeros_def ch_def, auto simp: d'_def a_def)
  have contents: "slot_contents w' \<lparr>buffer = Some (fst l), nframes = 0, timestamp = 0\<rparr> =
      Some (replicate ch zeros, 0, 0)" if "l \<in> set lay" for l
    unfolding slot_contents_Some slot_samples_Some
    using slots that
    by (auto intro!: exI [of _ "snd l"] simp: w'_def)
  have rbuf: "ring_buffer (d', w') = Some (replicate n (replicate ch zeros, 0, 0))"
    unfolding ring_buffer_Some
    using items len contents
    by (intro exI [of _ a] exI [of _ "map (\<lambda>l. \<lparr>buffer = Some (fst l), nframes = 0, timestamp = 0\<rparr>) lay"])
       (simp add: d'_def a_def w'_def)
  have blocks: "set (rb_blocks (d', w')) \<subseteq> {next_addr w..<next_addr w'}"
  proof -
    have "rb d' = Some a" by (simp add: d'_def a_def)
    then have "rb_blocks (d', w') = concat (map slot_blocks lay) @ [a]"
      by (simp add: rb_blocks_def lay)
    moreover have "next_addr w' = next_addr w1" by (simp add: w'_def)
    ultimately show ?thesis using range mono by (auto simp: a_def)
  qed
  have frame': "\<forall>x<next_addr w. mem w' x = mem w x"
    using frame by (simp add: w'_def a_def)
  have tr': "trace w' = trace w @ map Bzalloc [next_addr w..<next_addr w'] @
                [Store_long Rb_read 0, Store_long Rb_write 0]"
    using mono by (simp add: w'_def tr a_def upt_conv_Cons)
  show ?thesis
    using call valid rbuf blocks frame' tr' mono
    by (intro exI [of _ w']) (simp add: n_def ch_def zeros_def w'_def a_def)
qed

subsection \<open>\<open>destroy_rb\<close>: what the two release loops leave\<close>

lemma world_mem_trace_id: "w\<lparr>mem := mem w, trace := trace w\<rparr> = w"
  by simp

lemma destroy_channels_loop:
  assumes "rb d = Some a" "mem w a = Some (Items items)" "i < length items"
    "buffer (items ! i) = Some b" "mem w b = Some (Channels (map Some ss))"
    "distinct ss" "a \<notin> set ss" "b \<notin> set ss" "\<forall>s\<in>set ss. mem w s \<noteq> None"
    "m \<le> length ss"
  shows "for_loop [0..<m] (destroy_rb_channel d i) w =
     Some (w\<lparr>mem := (\<lambda>x. if x \<in> set (take m ss) then None else mem w x),
            trace := trace w @ map Bfree (take m ss)\<rparr>)"
  using assms(10)
proof (induction m)
  case 0
  then show ?case by simp
next
  case (Suc m)
  have m: "m < length ss" using Suc.prems by simp
  have notin: "ss ! m \<notin> set (take m ss)"
    using assms(6) m by (auto simp: in_set_conv_nth nth_eq_iff_index_eq)
  have a: "a \<notin> set (take m ss)" and b: "b \<notin> set (take m ss)"
    using assms(7,8) by (auto dest: in_set_takeD)
  have alloc: "mem w (ss ! m) \<noteq> None" using assms(9) m by simp
  have mem_eq: "(\<lambda>x. if x \<in> set (take m ss) then None else mem w x)(ss ! m := None) =
      (\<lambda>x. if x \<in> set (take (Suc m) ss) then None else mem w x)"
    using m by (auto simp: take_Suc_conv_app_nth fun_eq_iff)
  show ?case
    using Suc m notin a b alloc assms(1-5)
    by (simp add: for_loop_snoc destroy_rb_channel_def load_items_def index_def
        load_channels_def bfree_def mem_eq take_Suc_conv_app_nth)
qed

lemma destroy_rb_item_result:
  assumes "rb d = Some a" "mem w a = Some (Items items)" "i < length items"
    "buffer (items ! i) = Some b" "mem w b = Some (Channels (map Some ss))"
    "distinct ss" "a \<notin> set ss" "b \<notin> set ss" "\<forall>s\<in>set ss. mem w s \<noteq> None"
    "a \<noteq> b" "length ss = unat (channels d)"
  shows "destroy_rb_item d i w =
     Some (w\<lparr>mem := (\<lambda>x. if x \<in> set (ss @ [b]) then None else mem w x),
            trace := trace w @ map Bfree (ss @ [b])\<rparr>)"
proof -
  have loop: "for_loop [0..<unat (channels d)] (destroy_rb_channel d i) w =
     Some (w\<lparr>mem := (\<lambda>x. if x \<in> set ss then None else mem w x),
            trace := trace w @ map Bfree ss\<rparr>)"
    using destroy_channels_loop [OF assms(1-9), of "length ss"] assms(11) by simp
  have mem_eq: "(\<lambda>x. if x \<in> set ss then None else mem w x)(b := None) =
      (\<lambda>x. if x \<in> set (ss @ [b]) then None else mem w x)"
    by (auto simp: fun_eq_iff)
  show ?thesis
    using assms(1-5,7,8,10)
    by (simp add: destroy_rb_item_def loop load_items_def index_def bfree_def mem_eq)
qed

lemma destroy_items_loop:
  assumes "rb d = Some a" "mem w a = Some (Items items)" "length items = length lay"
    "\<forall>i<length lay. buffer (items ! i) = Some (fst (lay ! i)) \<and>
       mem w (fst (lay ! i)) = Some (Channels (map Some (snd (lay ! i)))) \<and>
       length (snd (lay ! i)) = unat (channels d)"
    "distinct (concat (map slot_blocks lay) @ [a])"
    "\<forall>x\<in>set (concat (map slot_blocks lay)). mem w x \<noteq> None"
    "k \<le> length lay"
  shows "for_loop [0..<k] (destroy_rb_item d) w =
     Some (w\<lparr>mem := (\<lambda>x. if x \<in> set (concat (map slot_blocks (take k lay))) then None else mem w x),
            trace := trace w @ map Bfree (concat (map slot_blocks (take k lay)))\<rparr>)"
  using assms(7)
proof (induction k)
  case 0
  then show ?case by simp
next
  case (Suc k)
  have k: "k < length lay" using Suc.prems by simp
  define freed where "freed = concat (map slot_blocks (take k lay))"
  define w' where "w' = w\<lparr>mem := (\<lambda>x. if x \<in> set freed then None else mem w x),
                          trace := trace w @ map Bfree freed\<rparr>"
  define b where "b = fst (lay ! k)"
  define ss where "ss = snd (lay ! k)"
  have loop: "for_loop [0..<k] (destroy_rb_item d) w = Some w'"
    using Suc by (simp add: w'_def freed_def)
  have disj: "set (slot_blocks (lay ! k)) \<inter> set freed = {}"
  proof -
    have "set (slot_blocks (lay ! k)) \<inter> set (slot_blocks (lay ! j)) = {}" if "j < k" for j
      using rb_valid_blocks(5) [OF assms(5) k, of j] that k by simp
    then show ?thesis
      by (auto simp: freed_def in_set_conv_nth) (metis disjoint_iff nth_mem)
  qed
  have blocks: "distinct ss" "b \<notin> set ss" "a \<notin> set ss" "a \<noteq> b"
    using rb_valid_blocks(1-4) [OF assms(5) k] by (simp_all add: ss_def b_def)
  have a_freed: "a \<notin> set freed"
    using assms(5) by (auto simp: freed_def dest: in_set_takeD)
  have b_freed: "b \<notin> set freed" and ss_freed: "set ss \<inter> set freed = {}"
    using disj by (auto simp: slot_blocks_def b_def ss_def)
  have sub: "set (slot_blocks (lay ! k)) \<subseteq> set (concat (map slot_blocks lay))"
    using k nth_mem by fastforce
  have step: "destroy_rb_item d k w' =
     Some (w'\<lparr>mem := (\<lambda>x. if x \<in> set (ss @ [b]) then None else mem w' x),
            trace := trace w' @ map Bfree (ss @ [b])\<rparr>)"
  proof (rule destroy_rb_item_result [OF assms(1), where items = items])
    show "mem w' a = Some (Items items)" using a_freed assms(2) by (simp add: w'_def)
    show "k < length items" using k assms(3) by simp
    show "buffer (items ! k) = Some b" using assms(4) k by (simp add: b_def)
    show "mem w' b = Some (Channels (map Some ss))"
      using assms(4) k b_freed by (simp add: w'_def b_def ss_def)
    show "\<forall>s\<in>set ss. mem w' s \<noteq> None"
      using assms(6) sub ss_freed by (auto simp: w'_def slot_blocks_def ss_def)
    show "length ss = unat (channels d)" using assms(4) k by (simp add: ss_def)
  qed (use blocks in simp_all)
  have take: "concat (map slot_blocks (take (Suc k) lay)) = freed @ ss @ [b]"
    using k by (simp add: take_Suc_conv_app_nth freed_def slot_blocks_def ss_def b_def)
  have mem_eq: "(\<lambda>x. if x \<in> set (ss @ [b]) then None else mem w' x) =
      (\<lambda>x. if x \<in> set (freed @ ss @ [b]) then None else mem w x)"
    by (auto simp: w'_def fun_eq_iff)
  show ?case
    unfolding take
    by (simp add: for_loop_snoc loop step) (cases w, auto simp: w'_def fun_eq_iff)
qed

lemma destroy_rb_result:
  assumes "rb_valid (d, w)"
  shows "destroy_rb (d, w) =
     Some (d\<lparr>rb_write := 0, rb_read := 0, rb := None\<rparr>,
           w\<lparr>mem := (\<lambda>x. if x \<in> set (rb_blocks (d, w)) then None else mem w x),
             trace := trace w @ [Os_atomic_set_long Rb_write 0, Os_atomic_set_long Rb_read 0] @
                      map Bfree (rb_blocks (d, w))\<rparr>)"
proof -
  from assms obtain lay a where a: "rb d = Some a" and lay: "rb_layout (d, w) = Some lay"
    and len: "length lay = unat (rb_items d)"
    and shape: "\<forall>l\<in>set lay. length (snd l) = unat (channels d) \<and>
           (\<forall>s\<in>set (snd l). \<exists>xs. mem w s = Some (Samples xs) \<and>
                                  length xs = unat (rb_buffer_size d))"
    and dist: "distinct (concat (map slot_blocks lay) @ [a])"
    by (auto simp: rb_valid_iff)
  from lay a obtain items where items: "mem w a = Some (Items items)"
    and len_items: "length items = length lay"
    and slot: "\<forall>i<length lay. buffer (items ! i) = Some (fst (lay ! i)) \<and>
           mem w (fst (lay ! i)) = Some (Channels (map Some (snd (lay ! i))))"
    by (auto simp: rb_layout_Some)
  define d1 where "d1 = d\<lparr>rb_write := 0, rb_read := 0\<rparr>"
  define w1 where "w1 = w\<lparr>trace := trace w @ [Os_atomic_set_long Rb_write 0, Os_atomic_set_long Rb_read 0]\<rparr>"
  define blocks where "blocks = concat (map slot_blocks lay)"
  have blocks: "rb_blocks (d, w) = blocks @ [a]" by (simp add: rb_blocks_def a lay blocks_def)
  have alloc: "\<forall>x\<in>set blocks. mem w1 x \<noteq> None"
  proof
    fix x assume "x \<in> set blocks"
    then obtain l where l: "l \<in> set lay" "x \<in> set (slot_blocks l)" by (auto simp: blocks_def)
    then obtain i where i: "i < length lay" "l = lay ! i" by (auto simp: in_set_conv_nth)
    from l(2) consider "x = fst l" | "x \<in> set (snd l)" by (auto simp: slot_blocks_def)
    then show "mem w1 x \<noteq> None"
    proof cases
      case 1 then show ?thesis using slot i by (simp add: w1_def)
    next
      case 2 then show ?thesis using shape l(1) by (auto simp: w1_def)
    qed
  qed
  have slot1: "\<forall>i<length lay. buffer (items ! i) = Some (fst (lay ! i)) \<and>
       mem w1 (fst (lay ! i)) = Some (Channels (map Some (snd (lay ! i)))) \<and>
       length (snd (lay ! i)) = unat (channels d1)"
    using slot shape by (simp add: w1_def d1_def)
  have loop: "for_loop [0..<unat (rb_items d1)] (destroy_rb_item d1) w1 =
     Some (w1\<lparr>mem := (\<lambda>x. if x \<in> set blocks then None else mem w1 x),
            trace := trace w1 @ map Bfree blocks\<rparr>)"
    using destroy_items_loop [of d1 a w1 items lay "length lay"] a items len_items slot1 dist
      alloc [unfolded blocks_def] len
    by (simp add: d1_def w1_def blocks_def)
  have a_blocks: "a \<notin> set blocks" using dist by (simp add: blocks_def)
  show ?thesis
    unfolding blocks
    using a a_blocks items loop
    by (simp add: destroy_rb_def emit_def d1_def [symmetric] w1_def [symmetric] bfree_def)
       (cases w, auto simp: d1_def w1_def fun_eq_iff)
qed

subsection \<open>The resize callback\<close>

lemma resize_result:
  assumes differs: "nf \<noteq> rb_buffer_size d" and nz: "nf \<noteq> 0" and valid: "rb_valid (d, w)"
    and client: "jack_client d = Some c" and engine: "jack_get_buffer_size e c = nf"
  shows "\<exists>w'. jack_buffer_size_callback e nf (d, w) =
           Some (0, (d\<lparr>rb_buffer_size := nf,
                        rb_items := ucast (jack_get_sample_rate e c div nf),
                        rb := Some (next_addr w), rb_read := 0, rb_write := 0\<rparr>, w')) \<and>
         rb_valid (d\<lparr>rb_buffer_size := nf,
                    rb_items := ucast (jack_get_sample_rate e c div nf),
                    rb := Some (next_addr w), rb_read := 0, rb_write := 0\<rparr>, w') \<and>
         ring_buffer (d\<lparr>rb_buffer_size := nf,
                        rb_items := ucast (jack_get_sample_rate e c div nf),
                        rb := Some (next_addr w), rb_read := 0, rb_write := 0\<rparr>, w') =
           Some (replicate (unat (jack_get_sample_rate e c) div unat nf)
                  (replicate (unat (channels d)) (replicate (unat nf) 0), 0, 0)) \<and>
         (\<forall>x\<in>set (rb_blocks (d, w)). mem w' x = None) \<and>
         trace w' = trace w @
           [Pthread_mutex_lock, Os_atomic_set_long Rb_write 0, Os_atomic_set_long Rb_read 0] @
           map Bfree (rb_blocks (d, w)) @
           map Bzalloc [next_addr w..<next_addr w'] @
           [Store_long Rb_read 0, Store_long Rb_write 0, Pthread_mutex_unlock]"
proof -
  define blocks where "blocks = rb_blocks (d, w)"
  define w0 where "w0 = emit Pthread_mutex_lock w"
  define d1 where "d1 = d\<lparr>rb_write := 0, rb_read := 0, rb := None, rb_buffer_size := nf\<rparr>"
  define w1 where "w1 = w0\<lparr>mem := (\<lambda>x. if x \<in> set blocks then None else mem w0 x),
             trace := trace w0 @ [Os_atomic_set_long Rb_write 0, Os_atomic_set_long Rb_read 0] @
                      map Bfree blocks\<rparr>"
  have valid0: "rb_valid (d, w0)" and blocks0: "rb_blocks (d, w0) = blocks"
    using valid by (simp_all add: w0_def emit_def blocks_def
        rb_valid_cong [of d d "w\<lparr>trace := trace w @ [Pthread_mutex_lock]\<rparr>" w]
        rb_blocks_cong [of d d "w\<lparr>trace := trace w @ [Pthread_mutex_lock]\<rparr>" w])
  have destroyed: "destroy_rb (d, w0) = Some (d\<lparr>rb_write := 0, rb_read := 0, rb := None\<rparr>, w1)"
    using destroy_rb_result [OF valid0] by (simp add: blocks0 w1_def)
  have below: "\<forall>x\<in>set blocks. x < next_addr w"
    using valid by (auto simp: rb_valid_iff blocks_def rb_blocks_def)
  from create_rb_result [of d1 c e w1] client nz engine
  obtain w2 where created: "create_rb e (d1, w1) =
        Some (d1\<lparr>rb_buffer_size := nf, rb_items := ucast (jack_get_sample_rate e c div nf),
                 rb := Some (next_addr w1), rb_read := 0, rb_write := 0\<rparr>, w2)"
    and valid2: "rb_valid (d1\<lparr>rb_buffer_size := nf, rb_items := ucast (jack_get_sample_rate e c div nf),
                 rb := Some (next_addr w1), rb_read := 0, rb_write := 0\<rparr>, w2)"
    and rbuf2: "ring_buffer (d1\<lparr>rb_buffer_size := nf, rb_items := ucast (jack_get_sample_rate e c div nf),
                 rb := Some (next_addr w1), rb_read := 0, rb_write := 0\<rparr>, w2) =
       Some (replicate (unat (jack_get_sample_rate e c) div unat nf)
              (replicate (unat (channels d1)) (replicate (unat nf) 0), 0, 0))"
    and frame2: "\<forall>x<next_addr w1. mem w2 x = mem w1 x"
    and tr2: "trace w2 = trace w1 @ map Bzalloc [next_addr w1..<next_addr w2] @
                [Store_long Rb_read 0, Store_long Rb_write 0]"
    by (auto simp: d1_def unat_capacity)
  define d' where "d' = d\<lparr>rb_buffer_size := nf,
                rb_items := ucast (jack_get_sample_rate e c div nf),
                rb := Some (next_addr w), rb_read := 0, rb_write := 0\<rparr>"
  define w' where "w' = emit Pthread_mutex_unlock w2"
  have next1: "next_addr w1 = next_addr w" by (simp add: w1_def w0_def emit_def)
  have d'_eq: "d1\<lparr>rb_buffer_size := nf, rb_items := ucast (jack_get_sample_rate e c div nf),
                 rb := Some (next_addr w1), rb_read := 0, rb_write := 0\<rparr> = d'"
    by (simp add: d1_def d'_def next1)
  have call: "jack_buffer_size_callback e nf (d, w) = Some (0, (d', w'))"
    using differs destroyed created
    by (simp add: jack_buffer_size_callback_def w0_def [symmetric] d1_def [symmetric]
        d'_eq w'_def)
  have valid': "rb_valid (d', w')"
    using valid2 unfolding d'_eq
    by (simp add: w'_def emit_def rb_valid_cong [of d' d' "w2\<lparr>trace := trace w2 @ [Pthread_mutex_unlock]\<rparr>" w2])
  have rbuf': "ring_buffer (d', w') =
           Some (replicate (unat (jack_get_sample_rate e c) div unat nf)
                  (replicate (unat (channels d)) (replicate (unat nf) 0), 0, 0))"
    using rbuf2 unfolding d'_eq
    by (simp add: w'_def emit_def d1_def
        ring_buffer_cong [of d' d' "w2\<lparr>trace := trace w2 @ [Pthread_mutex_unlock]\<rparr>" w2])
  have released: "\<forall>x\<in>set blocks. mem w' x = None"
    using below frame2 by (simp add: next1 w'_def emit_def) (simp add: w1_def)
  have tr': "trace w' = trace w @
           [Pthread_mutex_lock, Os_atomic_set_long Rb_write 0, Os_atomic_set_long Rb_read 0] @
           map Bfree blocks @
           map Bzalloc [next_addr w..<next_addr w'] @
           [Store_long Rb_read 0, Store_long Rb_write 0, Pthread_mutex_unlock]"
    by (simp add: w'_def emit_def tr2 w1_def w0_def)
  show ?thesis
    using call valid' rbuf' released tr'
    unfolding blocks_def d'_def by blast
qed


subsection \<open>Memory outside the ring buffer\<close>

lemma rb_blocks_Some:
  "rb d = Some a \<Longrightarrow> rb_layout (d, w) = Some lay \<Longrightarrow>
   rb_blocks (d, w) = concat (map slot_blocks lay) @ [a]"
  by (simp add: rb_blocks_def)

lemma rb_layout_frame:
  assumes "rb_layout (d, w) = Some lay" "rb d' = rb d"
    "\<forall>y\<in>set (rb_blocks (d, w)). mem w' y = mem w y"
  shows "rb_layout (d', w') = Some lay"
proof -
  from assms(1) obtain a items where a: "rb d = Some a" and items: "mem w a = Some (Items items)"
    and len: "length items = length lay"
    and slot: "\<forall>i<length lay. buffer (items ! i) = Some (fst (lay ! i)) \<and>
           mem w (fst (lay ! i)) = Some (Channels (map Some (snd (lay ! i))))"
    by (auto simp: rb_layout_Some)
  have blocks: "rb_blocks (d, w) = concat (map slot_blocks lay) @ [a]"
    using a assms(1) by (rule rb_blocks_Some)
  have "mem w' a = mem w a" using assms(3) by (simp add: blocks)
  moreover have "mem w' (fst (lay ! i)) = mem w (fst (lay ! i))" if "i < length lay" for i
  proof -
    have "fst (lay ! i) \<in> set (slot_blocks (lay ! i))" by (simp add: slot_blocks_def)
    then have "fst (lay ! i) \<in> set (rb_blocks (d, w))"
      using that nth_mem [of i lay] by (auto simp: blocks)
    then show ?thesis using assms(3) by simp
  qed
  ultimately show ?thesis
    unfolding rb_layout_Some
    using a items len slot assms(2)
    by (intro exI [of _ a] exI [of _ items]) simp
qed

lemma rb_valid_frame:
  assumes "rb_valid (d, w)" "rb d' = rb d" "rb_items d' = rb_items d" "channels d' = channels d"
    "rb_buffer_size d' = rb_buffer_size d"
    "\<forall>y\<in>set (rb_blocks (d, w)). mem w' y = mem w y" "next_addr w \<le> next_addr w'"
  shows "rb_valid (d', w')" "rb_blocks (d', w') = rb_blocks (d, w)"
proof -
  from assms(1) obtain lay a where a: "rb d = Some a" and lay: "rb_layout (d, w) = Some lay"
    and len: "length lay = unat (rb_items d)"
    and shape: "\<forall>l\<in>set lay. length (snd l) = unat (channels d) \<and>
           (\<forall>s\<in>set (snd l). \<exists>xs. mem w s = Some (Samples xs) \<and>
                                  length xs = unat (rb_buffer_size d))"
    and dist: "distinct (concat (map slot_blocks lay) @ [a])"
    and below: "\<forall>x\<in>set (concat (map slot_blocks lay) @ [a]). x < next_addr w"
    by (auto simp: rb_valid_iff)
  have blocks: "rb_blocks (d, w) = concat (map slot_blocks lay) @ [a]"
    using a lay by (rule rb_blocks_Some)
  have lay': "rb_layout (d', w') = Some lay"
    using lay assms(2,6) by (rule rb_layout_frame)
  show blocks': "rb_blocks (d', w') = rb_blocks (d, w)"
    using a assms(2) lay' by (simp add: blocks rb_blocks_Some)
  have shape': "\<forall>l\<in>set lay. length (snd l) = unat (channels d') \<and>
           (\<forall>s\<in>set (snd l). \<exists>xs. mem w' s = Some (Samples xs) \<and>
                                  length xs = unat (rb_buffer_size d'))"
  proof (intro ballI conjI)
    fix l assume l: "l \<in> set lay"
    then show "length (snd l) = unat (channels d')" using shape assms(4) by simp
    fix s assume s: "s \<in> set (snd l)"
    then have "s \<in> set (rb_blocks (d, w))" using l by (auto simp: blocks slot_blocks_def)
    then have "mem w' s = mem w s" using assms(6) by simp
    then show "\<exists>xs. mem w' s = Some (Samples xs) \<and> length xs = unat (rb_buffer_size d')"
      using shape l s assms(5) by simp
  qed
  show "rb_valid (d', w')"
    unfolding rb_valid_iff
    using a assms(2,3,7) lay' len shape' dist below
    by (intro exI [of _ lay] exI [of _ a]) fastforce
qed

lemma rb_blocks_not_ports:
  assumes "rb_valid (d, w)" "mem w pa = Some (Ports ps)"
  shows "pa \<notin> set (rb_blocks (d, w))"
proof
  assume pa: "pa \<in> set (rb_blocks (d, w))"
  from assms(1) obtain lay a where a: "rb d = Some a" and lay: "rb_layout (d, w) = Some lay"
    and shape: "\<forall>l\<in>set lay. length (snd l) = unat (channels d) \<and>
           (\<forall>s\<in>set (snd l). \<exists>xs. mem w s = Some (Samples xs) \<and>
                                  length xs = unat (rb_buffer_size d))"
    by (auto simp: rb_valid_iff)
  from lay a obtain items where items: "mem w a = Some (Items items)"
    and slot: "\<forall>i<length lay. mem w (fst (lay ! i)) = Some (Channels (map Some (snd (lay ! i))))"
    by (auto simp: rb_layout_Some)
  from pa consider "pa = a" | l where "l \<in> set lay" "pa \<in> set (slot_blocks l)"
    by (auto simp: rb_blocks_Some [OF a lay])
  then show False
  proof cases
    case 1 then show ?thesis using items assms(2) by simp
  next
    case 2
    then obtain i where i: "i < length lay" "l = lay ! i" by (auto simp: in_set_conv_nth)
    from 2(2) consider "pa = fst l" | "pa \<in> set (snd l)" by (auto simp: slot_blocks_def)
    then show ?thesis
    proof cases
      case 1 then show ?thesis using slot i assms(2) by simp
    next
      case 2 then show ?thesis using shape \<open>l \<in> set lay\<close> assms(2) by fastforce
    qed
  qed
qed

subsection \<open>\<open>deactivate_jack\<close>: what the teardown leaves\<close>

lemma for_loop_emits:
  assumes "\<And>i t. i < m \<Longrightarrow> body i (w\<lparr>trace := t\<rparr>) = Some (w\<lparr>trace := t @ f i\<rparr>)"
  shows "for_loop [0..<m] body w = Some (w\<lparr>trace := trace w @ concat (map f [0..<m])\<rparr>)"
  using assms
proof (induction m)
  case 0
  then show ?case by simp
next
  case (Suc m)
  then have "for_loop [0..<m] body w = Some (w\<lparr>trace := trace w @ concat (map f [0..<m])\<rparr>)"
    by simp
  then show ?case using Suc.prems [of m] by (simp add: for_loop_snoc)
qed

lemma registered_ports:
  "m \<le> length ps \<Longrightarrow>
   concat (map (\<lambda>i. case ps ! i of None \<Rightarrow> [] | Some p \<Rightarrow> [g p]) [0..<m]) =
   map g [p. Some p \<leftarrow> take m ps]"
proof (induction m)
  case 0
  then show ?case by simp
next
  case (Suc m)
  then show ?case by (cases "ps ! m") (simp_all add: take_Suc_conv_app_nth)
qed

lemma unregister_ports_result:
  assumes "jack_ports d = Some pa" "mem w pa = Some (Ports ps)" "jack_client d = Some c"
    "unat (channels d) \<le> length ps"
  shows "unregister_ports (d, w) =
     Some (d\<lparr>jack_ports := None\<rparr>,
           w\<lparr>mem := (mem w)(pa := None),
             trace := trace w @ map (Jack_port_unregister c)
                        [p. Some p \<leftarrow> take (unat (channels d)) ps] @ [Bfree pa]\<rparr>)"
proof -
  have "for_loop [0..<unat (channels d)] (\<lambda>i w. do {
                  ports \<leftarrow> load_ports w (jack_ports d);
                  port \<leftarrow> index ports i;
                  case port of
                    None \<Rightarrow> Some w
                  | Some p \<Rightarrow> do {
                      c \<leftarrow> jack_client d;
                      Some (emit (Jack_port_unregister c p) w)
                    }
                }) w =
     Some (w\<lparr>trace := trace w @ concat (map (\<lambda>i. case ps ! i of None \<Rightarrow> []
                 | Some p \<Rightarrow> [Jack_port_unregister c p]) [0..<unat (channels d)])\<rparr>)"
  proof (rule for_loop_emits)
    fix i t assume "i < unat (channels d)"
    then have "i < length ps" using assms(4) by simp
    then show "(do {
                  ports \<leftarrow> load_ports (w\<lparr>trace := t\<rparr>) (jack_ports d);
                  port \<leftarrow> index ports i;
                  case port of
                    None \<Rightarrow> Some (w\<lparr>trace := t\<rparr>)
                  | Some p \<Rightarrow> do {
                      c \<leftarrow> jack_client d;
                      Some (emit (Jack_port_unregister c p) (w\<lparr>trace := t\<rparr>))
                    }
                }) = Some (w\<lparr>trace := t @ (case ps ! i of None \<Rightarrow> []
                 | Some p \<Rightarrow> [Jack_port_unregister c p])\<rparr>)"
      using assms(1-3) by (cases "ps ! i") (simp_all add: load_ports_def index_def emit_def)
  qed
  then have loop: "for_loop [0..<unat (channels d)] (\<lambda>i w. do {
                  ports \<leftarrow> load_ports w (jack_ports d);
                  port \<leftarrow> index ports i;
                  case port of
                    None \<Rightarrow> Some w
                  | Some p \<Rightarrow> do {
                      c \<leftarrow> jack_client d;
                      Some (emit (Jack_port_unregister c p) w)
                    }
                }) w =
     Some (w\<lparr>trace := trace w @ map (Jack_port_unregister c)
                        [p. Some p \<leftarrow> take (unat (channels d)) ps]\<rparr>)"
    by (simp only: registered_ports [OF assms(4)])
  show ?thesis
    unfolding unregister_ports_def prod.case loop
    using assms(1,2) by (simp add: bfree_def)
qed

lemma clear_flags:
  "\<not> activated d \<Longrightarrow> d\<lparr>activated := False\<rparr> = d"
  "\<not> transfer_thread_started d \<Longrightarrow> d\<lparr>transfer_thread_started := False\<rparr> = d"
  by (cases d; simp)+

lemma deactivate_jack_result:
  assumes client: "jack_client d = Some c"
    and ports: "jack_ports d = Some pa" "mem w pa = Some (Ports ps)"
      "length ps = unat (channels d)"
    and valid: "rb_valid (d, w)"
  shows "deactivate_jack (d, w) =
     Some (d\<lparr>activated := False, transfer_thread_started := False, jack_ports := None,
             jack_client := None, rb_write := 0, rb_read := 0, rb := None\<rparr>,
           w\<lparr>mem := (\<lambda>x. if x = pa \<or> x \<in> set (rb_blocks (d, w)) then None else mem w x),
             trace := trace w @
               (if activated d then [Jack_deactivate c, Store_activated False] else []) @
               (if transfer_thread_started d then [Pthread_join (transfer_thread d)] else []) @
               map (Jack_port_unregister c) [p. Some p \<leftarrow> ps] @
               [Bfree pa, Jack_client_close c,
                Os_atomic_set_long Rb_write 0, Os_atomic_set_long Rb_read 0] @
               map Bfree (rb_blocks (d, w))\<rparr>)"
proof -
  define tr1 where "tr1 = trace w @
               (if activated d then [Jack_deactivate c, Store_activated False] else []) @
               (if transfer_thread_started d then [Pthread_join (transfer_thread d)] else [])"
  define d1 where "d1 = d\<lparr>activated := False, transfer_thread_started := False\<rparr>"
  define w1 where "w1 = w\<lparr>trace := tr1\<rparr>"
  define d2 where "d2 = d1\<lparr>jack_ports := None, jack_client := None\<rparr>"
  define w2 where "w2 = w\<lparr>mem := (mem w)(pa := None),
             trace := tr1 @ map (Jack_port_unregister c) [p. Some p \<leftarrow> ps] @
                      [Bfree pa, Jack_client_close c]\<rparr>"
  have unreg: "unregister_ports (d1, w1) =
      Some (d1\<lparr>jack_ports := None\<rparr>,
            w1\<lparr>mem := (mem w1)(pa := None),
              trace := trace w1 @ map (Jack_port_unregister c)
                        [p. Some p \<leftarrow> take (unat (channels d1)) ps] @ [Bfree pa]\<rparr>)"
    using client ports by (intro unregister_ports_result) (simp_all add: d1_def w1_def)
  have pa: "pa \<notin> set (rb_blocks (d, w))" using valid ports(2) by (rule rb_blocks_not_ports)
  have frame: "\<forall>y\<in>set (rb_blocks (d, w)). mem w2 y = mem w y" using pa by (auto simp: w2_def)
  have valid2: "rb_valid (d2, w2)" and blocks2: "rb_blocks (d2, w2) = rb_blocks (d, w)"
    using rb_valid_frame [OF valid _ _ _ _ frame, of d2]
    by (simp_all add: d2_def d1_def w2_def)
  have start: "deactivate_jack (d, w) =
      Option.bind (unregister_ports (d1, w1))
        (\<lambda>(d, w). destroy_rb (d\<lparr>jack_client := None\<rparr>, emit (Jack_client_close c) w))"
    using client
    by (cases "activated d"; cases "transfer_thread_started d")
       (simp_all add: deactivate_jack_def d1_def w1_def tr1_def emit_def clear_flags)
  have prefix: "deactivate_jack (d, w) = destroy_rb (d2, w2)"
    unfolding start unreg
    using ports(3) by (simp add: emit_def d2_def d1_def w2_def w1_def)
  show ?thesis
    unfolding prefix destroy_rb_result [OF valid2] blocks2
    by (cases w) (auto simp: d2_def d1_def w2_def tr1_def fun_eq_iff)
qed

lemma ex_ports: "mem ex_world 0 = Some (Ports [Some 11, Some 12])"
  by (simp add: ex_world_def ex_mem_def)

subsection \<open>\<open>jack_init\<close>: what a startup leaves\<close>

lemma stopped_Cons:
  "\<not> call_failed e ev \<Longrightarrow> stopped_at_failure e evs \<Longrightarrow> stopped_at_failure e (ev # evs)"
  by (auto simp: stopped_at_failure_def)

lemma stopped_single: "call_failed e ev \<Longrightarrow> stopped_at_failure e [ev]"
  by (simp add: stopped_at_failure_def)

lemma stopped_append:
  "list_all (\<lambda>ev. \<not> call_failed e ev) xs \<Longrightarrow> stopped_at_failure e ys \<Longrightarrow>
   stopped_at_failure e (xs @ ys)"
  by (induction xs) (auto simp: stopped_Cons)

lemma stopped_snoc:
  "list_all (\<lambda>ev. \<not> call_failed e ev) xs \<Longrightarrow> call_failed e ev \<Longrightarrow>
   stopped_at_failure e (xs @ [ev])"
  by (simp add: stopped_append stopped_single)

lemma register_ports_result:
  assumes "jack_client d = Some c" "jack_ports d = Some pa"
  shows "mem w pa = Some (Ports ps) \<Longrightarrow> \<forall>i\<in>set is. i < length ps \<Longrightarrow>
     \<exists>ok w' evs ps'. register_ports e d is w = Some (ok, w') \<and>
       trace w' = trace w @ evs \<and> next_addr w' = next_addr w \<and>
       mem w' = (mem w)(pa \<mapsto> Ports ps') \<and> length ps' = length ps \<and>
       list_all (\<lambda>ev. \<not> teardown ev) evs \<and>
       (if ok then list_all (\<lambda>ev. \<not> call_failed e ev) evs else stopped_at_failure e evs)"
proof (induction "is" arbitrary: w ps)
  case Nil
  then show ?case
    by (intro exI [of _ True] exI [of _ w] exI [of _ "[]"] exI [of _ ps]) auto
next
  case (Cons i "is")
  define ev where "ev = Jack_port_register c (port_name i)"
  define port where "port = jack_port_register e c (port_name i)"
  define w1 where "w1 = w\<lparr>mem := (mem w)(pa \<mapsto> Ports (ps[i := port])), trace := trace w @ [ev]\<rparr>"
  have i: "i < length ps" using Cons.prems(2) by simp
  have unfold: "register_ports e d (i # is) w =
      (if port = None then Some (False, w1) else register_ports e d is w1)"
    using assms Cons.prems(1) i
    by (cases w)
       (simp add: store_port_def load_ports_def guard_def emit_def w1_def ev_def port_def Let_def)
  show ?case
  proof (cases "port = None")
    case True
    then have "call_failed e ev" by (simp add: ev_def port_def)
    then show ?thesis
      unfolding unfold
      using True
      by (intro exI [of _ False] exI [of _ w1] exI [of _ "[ev]"] exI [of _ "ps[i := port]"])
         (simp add: w1_def stopped_single, simp add: ev_def)
  next
    case False
    then have ok: "\<not> call_failed e ev" by (simp add: ev_def port_def)
    have A: "mem w1 pa = Some (Ports (ps[i := port]))" by (simp add: w1_def)
    have B: "\<forall>j\<in>set is. j < length (ps[i := port])" using Cons.prems(2) by simp
    from Cons.IH [OF A B] obtain ok' w' evs ps' where rest: "register_ports e d is w1 = Some (ok', w')"
      "trace w' = trace w1 @ evs" "next_addr w' = next_addr w1"
      "mem w' = (mem w1)(pa \<mapsto> Ports ps')" "length ps' = length (ps[i := port])"
      "list_all (\<lambda>ev. \<not> teardown ev) evs"
      "if ok' then list_all (\<lambda>ev. \<not> call_failed e ev) evs else stopped_at_failure e evs"
      by (elim exE conjE) blast
    show ?thesis
      unfolding unfold
      using False rest ok
      by (intro exI [of _ ok'] exI [of _ w'] exI [of _ "ev # evs"] exI [of _ ps'])
         (auto simp: w1_def stopped_Cons ev_def)
  qed
qed

lemma allocs_harmless:
  "list_all (\<lambda>ev. \<not> teardown ev) (map Bzalloc xs)"
  "list_all (\<lambda>ev. \<not> call_failed e ev) (map Bzalloc xs)"
  by (induction xs) auto

lemma jack_init_result:
  assumes closed: "jack_client d = None" and nz: "\<forall>c. jack_get_buffer_size e c \<noteq> 0"
  shows "\<exists>r d' w' evs. jack_init e (d, w) = Some (r, (d', w')) \<and> trace w' = trace w @ evs \<and>
     (if r = 0 then list_all (\<lambda>ev. \<not> call_failed e ev) evs
      else r = 1 \<and> stopped_at_failure e evs) \<and>
     list_all (\<lambda>ev. \<not> teardown ev) evs \<and>
     jack_client d' = jack_client_open e (device d)
                        (if start_jack_server d then JackNullOption else JackNoStartServer) \<and>
     (jack_client d' \<noteq> None \<longrightarrow> jack_ports d' = Some (next_addr w))"
proof -
  define opt where "opt = (if start_jack_server d then JackNullOption else JackNoStartServer)"
  define ev_open where "ev_open = Jack_client_open (device d) opt"
  show ?thesis
  proof (cases "jack_client_open e (device d) opt")
    case None
    then have "jack_init e (d, w) = Some (1, (d, w\<lparr>trace := trace w @ [ev_open]\<rparr>))"
      using closed by (cases d) (simp add: jack_init_def emit_def opt_def ev_open_def Let_def)
    moreover have "stopped_at_failure e [ev_open]"
      using None by (intro stopped_single) (simp add: ev_open_def)
    ultimately show ?thesis
      using None closed
      by (intro exI [of _ 1] exI [of _ d] exI [of _ "w\<lparr>trace := trace w @ [ev_open]\<rparr>"]
          exI [of _ "[ev_open]"])
         (simp add: opt_def ev_open_def)
  next
    case (Some c)
    define pa where "pa = next_addr w"
    define ch where "ch = unat (channels d)"
    define d2 where "d2 = d\<lparr>jack_client := Some c, jack_ports := Some pa\<rparr>"
    define w2 where "w2 = w\<lparr>mem := (mem w)(pa \<mapsto> Ports (replicate ch None)),
                            next_addr := Suc pa,
                            trace := trace w @ [ev_open, Bzalloc pa]\<rparr>"
    have opened: "\<not> call_failed e ev_open" using Some by (simp add: ev_open_def)
    have "\<exists>ok w' evs ps'. register_ports e d2 [0..<ch] w2 = Some (ok, w') \<and>
       trace w' = trace w2 @ evs \<and> next_addr w' = next_addr w2 \<and>
       mem w' = (mem w2)(pa \<mapsto> Ports ps') \<and> length ps' = length (replicate ch (None :: jack_port_t option)) \<and>
       list_all (\<lambda>ev. \<not> teardown ev) evs \<and>
       (if ok then list_all (\<lambda>ev. \<not> call_failed e ev) evs else stopped_at_failure e evs)"
      by (rule register_ports_result [where c = c]) (simp_all add: d2_def w2_def)
    then obtain ok w3 evs3 where reg: "register_ports e d2 [0..<ch] w2 = Some (ok, w3)"
      and tr3: "trace w3 = trace w @ [ev_open, Bzalloc pa] @ evs3"
      and clean3: "list_all (\<lambda>ev. \<not> teardown ev) evs3"
      and ok3: "if ok then list_all (\<lambda>ev. \<not> call_failed e ev) evs3 else stopped_at_failure e evs3"
      by (auto simp: w2_def)
    define ev_bs where "ev_bs = Jack_set_buffer_size_callback c"
    define ev_pr where "ev_pr = Jack_set_process_callback c"
    define ev_act where "ev_act = Jack_activate c"
    define w5 where "w5 = w3\<lparr>trace := trace w3 @ [ev_bs, ev_pr]\<rparr>"
    have "jack_client d2 = Some c" by (simp add: d2_def)
    from create_rb_result [OF this, of e w5] nz
    obtain d6 w6 where created: "create_rb e (d2, w5) = Some (d6, w6)"
      and d6: "d6 = d2\<lparr>rb_buffer_size := jack_get_buffer_size e c,
                  rb_items := ucast (jack_get_sample_rate e c div jack_get_buffer_size e c),
                  rb := Some (next_addr w5), rb_read := 0, rb_write := 0\<rparr>"
      and tr6: "trace w6 = trace w5 @ map Bzalloc [next_addr w5..<next_addr w6] @
                [Store_long Rb_read 0, Store_long Rb_write 0]"
      by auto
    define evs6 where "evs6 = [ev_open, Bzalloc pa] @ evs3 @ [ev_bs, ev_pr] @
        map Bzalloc [next_addr w5..<next_addr w6] @ [Store_long Rb_read 0, Store_long Rb_write 0]"
    have tr6': "trace w6 = trace w @ evs6" by (simp add: tr6 w5_def tr3 evs6_def)
    have start: "jack_init e (d, w) =
        (if \<not> ok then Some (1, (d2, w3))
         else if jack_set_buffer_size_callback e c \<noteq> 0
           then Some (1, (d2, w3\<lparr>trace := trace w3 @ [ev_bs]\<rparr>))
         else if jack_set_process_callback e c \<noteq> 0 then Some (1, (d2, w5))
         else if jack_activate e c \<noteq> 0 then Some (1, (d6, w6\<lparr>trace := trace w6 @ [ev_act]\<rparr>))
         else (case pthread_create e of
                 None \<Rightarrow> Some (1, (d6\<lparr>activated := True\<rparr>,
                          w6\<lparr>trace := trace w6 @ [ev_act, Store_activated True, Pthread_create]\<rparr>))
               | Some thread \<Rightarrow>
                   Some (0, (d6\<lparr>activated := True, transfer_thread := thread,
                                transfer_thread_started := True\<rparr>,
                          w6\<lparr>trace := trace w6 @ [ev_act, Store_activated True, Pthread_create]\<rparr>))))"
      using closed Some reg created
      by (cases w)
         (simp add: jack_init_def emit_def bzalloc_def Let_def opt_def [symmetric]
           d2_def w2_def pa_def ch_def ev_open_def w5_def ev_bs_def ev_pr_def ev_act_def
           split: option.splits)
    have client2: "jack_client d2 = jack_client_open e (device d) opt" "jack_ports d2 = Some (next_addr w)"
      "jack_client d6 = jack_client_open e (device d) opt" "jack_ports d6 = Some (next_addr w)"
      using Some by (simp_all add: d2_def d6 pa_def)
    consider (ports) "\<not> ok"
      | (bs) "ok" "jack_set_buffer_size_callback e c \<noteq> 0"
      | (pr) "ok" "jack_set_buffer_size_callback e c = 0" "jack_set_process_callback e c \<noteq> 0"
      | (act) "ok" "jack_set_buffer_size_callback e c = 0" "jack_set_process_callback e c = 0"
          "jack_activate e c \<noteq> 0"
      | (thr) "ok" "jack_set_buffer_size_callback e c = 0" "jack_set_process_callback e c = 0"
          "jack_activate e c = 0" "pthread_create e = None"
      | (good) thread where "ok" "jack_set_buffer_size_callback e c = 0"
          "jack_set_process_callback e c = 0" "jack_activate e c = 0"
          "pthread_create e = Some thread"
      by (cases "pthread_create e") auto
    then show ?thesis
    proof cases
      case ports
      then have "stopped_at_failure e ([ev_open, Bzalloc pa] @ evs3)"
        using ok3 opened by (intro stopped_append) simp_all
      then show ?thesis
        unfolding start opt_def [symmetric]
        using ports clean3 client2
        by (intro exI [of _ 1] exI [of _ d2] exI [of _ w3] exI [of _ "[ev_open, Bzalloc pa] @ evs3"])
           (simp add: tr3 ev_open_def)
    next
      case bs
      then have "stopped_at_failure e (([ev_open, Bzalloc pa] @ evs3) @ [ev_bs])"
        using ok3 opened by (intro stopped_snoc) (simp_all add: ev_bs_def)
      then show ?thesis
        unfolding start opt_def [symmetric]
        using bs clean3 client2
        by (intro exI [of _ 1] exI [of _ d2] exI [of _ "w3\<lparr>trace := trace w3 @ [ev_bs]\<rparr>"]
            exI [of _ "([ev_open, Bzalloc pa] @ evs3) @ [ev_bs]"])
           (simp add: tr3 ev_open_def ev_bs_def)
    next
      case pr
      then have "stopped_at_failure e (([ev_open, Bzalloc pa] @ evs3 @ [ev_bs]) @ [ev_pr])"
        using ok3 opened by (intro stopped_snoc) (simp_all add: ev_bs_def ev_pr_def)
      then show ?thesis
        unfolding start opt_def [symmetric]
        using pr clean3 client2
        by (intro exI [of _ 1] exI [of _ d2] exI [of _ w5]
            exI [of _ "([ev_open, Bzalloc pa] @ evs3 @ [ev_bs]) @ [ev_pr]"])
           (simp add: tr3 w5_def ev_open_def ev_bs_def ev_pr_def)
    next
      case act
      have clean6: "list_all (\<lambda>ev. \<not> call_failed e ev) evs6"
        using act ok3 opened by (simp add: evs6_def ev_bs_def ev_pr_def allocs_harmless)
      then have "stopped_at_failure e (evs6 @ [ev_act])"
        using act by (intro stopped_snoc) (simp_all add: ev_act_def)
      moreover have "list_all (\<lambda>ev. \<not> teardown ev) (evs6 @ [ev_act])"
        using clean3 by (simp add: evs6_def ev_open_def ev_bs_def ev_pr_def ev_act_def allocs_harmless)
      ultimately show ?thesis
        unfolding start opt_def [symmetric]
        using act client2
        by (intro exI [of _ 1] exI [of _ d6] exI [of _ "w6\<lparr>trace := trace w6 @ [ev_act]\<rparr>"]
            exI [of _ "evs6 @ [ev_act]"])
           (simp add: tr6')
    next
      case thr
      have clean6: "list_all (\<lambda>ev. \<not> call_failed e ev) (evs6 @ [ev_act, Store_activated True])"
        using thr ok3 opened by (simp add: evs6_def ev_bs_def ev_pr_def ev_act_def allocs_harmless)
      then have "stopped_at_failure e ((evs6 @ [ev_act, Store_activated True]) @ [Pthread_create])"
        using thr by (intro stopped_snoc) simp_all
      moreover have "list_all (\<lambda>ev. \<not> teardown ev) (evs6 @ [ev_act, Store_activated True, Pthread_create])"
        using clean3 by (simp add: evs6_def ev_open_def ev_bs_def ev_pr_def ev_act_def allocs_harmless)
      ultimately show ?thesis
        unfolding start opt_def [symmetric]
        using thr client2
        by (intro exI [of _ 1] exI [of _ "d6\<lparr>activated := True\<rparr>"]
            exI [of _ "w6\<lparr>trace := trace w6 @ [ev_act, Store_activated True, Pthread_create]\<rparr>"]
            exI [of _ "evs6 @ [ev_act, Store_activated True, Pthread_create]"])
           (simp add: tr6')
    next
      case good
      have "list_all (\<lambda>ev. \<not> call_failed e ev) (evs6 @ [ev_act, Store_activated True, Pthread_create])"
        using good ok3 opened by (simp add: evs6_def ev_bs_def ev_pr_def ev_act_def allocs_harmless)
      moreover have "list_all (\<lambda>ev. \<not> teardown ev) (evs6 @ [ev_act, Store_activated True, Pthread_create])"
        using clean3 by (simp add: evs6_def ev_open_def ev_bs_def ev_pr_def ev_act_def allocs_harmless)
      ultimately show ?thesis
        unfolding start opt_def [symmetric]
        using good client2
        by (intro exI [of _ 0] exI [of _ "d6\<lparr>activated := True, transfer_thread := thread,
                                transfer_thread_started := True\<rparr>"]
            exI [of _ "w6\<lparr>trace := trace w6 @ [ev_act, Store_activated True, Pthread_create]\<rparr>"]
            exI [of _ "evs6 @ [ev_act, Store_activated True, Pthread_create]"])
           (simp add: tr6')
    qed
  qed
qed

lemma ex_port_names: "port_name 0 = ''in_1''" "port_name 1 = ''in_2''" "port_name (Suc 0) = ''in_2''"
  by (simp_all add: port_name_def)

lemma ex_init_no_thread:
  "jack_init ex_env_no_thread (ex_data_closed, ex_world_empty) =
     Some (1, (ex_data\<lparr>rb_write := 0, transfer_thread := 0, transfer_thread_started := False\<rparr>,
               ex_world0\<lparr>trace := ex_init_trace\<rparr>))"
  by (simp add: jack_init_def ex_env_no_thread_def ex_env_def ex_data_closed_def ex_data_def
      ex_world_empty_def ex_world0_def ex_init_trace_def ex_port_names
      store_port_def load_ports_def
      create_rb_def guard_def bzalloc_def upt_0_2
      create_rb_item_def create_rb_channel_def update_item_def load_items_def index_def
      store_channel_def load_channels_def emit_def ex_mem0_def fun_eq_iff replicate_numeral)

lemma ex_init:
  "jack_init ex_env (ex_data_closed, ex_world_empty) =
     Some (0, (ex_data\<lparr>rb_write := 0\<rparr>, ex_world0\<lparr>trace := ex_init_trace\<rparr>))"
  by (simp add: jack_init_def ex_env_def ex_data_closed_def ex_data_def
      ex_world_empty_def ex_world0_def ex_init_trace_def ex_port_names
      store_port_def load_ports_def
      create_rb_def guard_def bzalloc_def upt_0_2
      create_rb_item_def create_rb_channel_def update_item_def load_items_def index_def
      store_channel_def load_channels_def emit_def ex_mem0_def fun_eq_iff replicate_numeral)

subsection \<open>The cursors\<close>

lemma sint_LONG_MAX: "sint LONG_MAX = 2 ^ 63 - 1"
  by (simp add: LONG_MAX_def)

lemma sint_succ:
  fixes x :: long
  assumes "x \<noteq> LONG_MAX"
  shows "sint (x + 1) = sint x + 1"
proof -
  have "sint x \<noteq> sint LONG_MAX" using assms by (auto dest: signed_word_eqI)
  moreover have "sint x < 2 ^ 63" using sint_lt [of x] by simp
  ultimately have up: "sint x + 1 < 2 ^ 63" by (simp add: sint_LONG_MAX)
  have low: "- (2 ^ 63) \<le> sint x + 1" using sint_ge [of x] by simp
  have "sint (x + 1) = signed_take_bit 63 (sint x + 1)"
    by (simp add: sint_word_add)
  also have "\<dots> = sint x + 1"
    using low up by (intro signed_take_bit_int_eq_self) simp_all
  finally show ?thesis .
qed

lemma sless_not_max:
  fixes x y :: long
  shows "x <s y \<Longrightarrow> x \<noteq> LONG_MAX"
  using sint_lt [of y] by (auto simp: word_sless_alt sint_LONG_MAX)

lemma create_rb_cursors:
  "create_rb e (d, w) = Some (d', w') \<Longrightarrow> rb_read d' = 0 \<and> rb_write d' = 0"
  by (auto simp: create_rb_def Let_def split: Option.bind_splits prod.splits)

lemma destroy_rb_cursors:
  "destroy_rb (d, w) = Some (d', w') \<Longrightarrow>
     (rb_read d' = rb_read d \<and> rb_write d' = rb_write d) \<or> (rb_read d' = 0 \<and> rb_write d' = 0)"
  by (auto simp: destroy_rb_def Let_def split: Option.bind_splits prod.splits if_splits)

lemma ex_consume:
  "jack_transfer_worker_body ex_env (ex_data, ex_world) =
     Some (ex_data\<lparr>rb_read := 1\<rparr>,
           ex_world\<lparr>trace :=
             [Pthread_mutex_lock,
              Obs_source_output_audio 1
                \<lparr>obs_source_audio.data = [Some 3, Some 4], frames = 2,
                 obs_source_audio.speakers = SPEAKERS_STEREO,
                 format = AUDIO_FORMAT_FLOAT_PLANAR, samples_per_sec = 4,
                 obs_source_audio.timestamp = 1000000\<rparr>,
              Pthread_mutex_unlock,
              Os_atomic_inc_long Rb_read]\<rparr>)"
  by (simp add: jack_transfer_worker_body_def ex_data_def ex_world_def ex_env_def
      guard_def load_items_def load_channels_def index_def emit_def ex_mem_def upt_0_2
      word_sle_eq MAX_AV_PLANES_def jack_channels_to_obs_speakers_def)

lemma ex_resize:
  "\<exists>w'. jack_buffer_size_callback ex_env_resized 1 (ex_data, ex_world) =
     Some (0, (ex_data\<lparr>rb_buffer_size := 1, rb_items := 4, rb := Some 8,
                       rb_read := 0, rb_write := 0\<rparr>, w'))"
proof -
  have "(1 :: jack_nframes_t) \<noteq> rb_buffer_size ex_data" "(1 :: jack_nframes_t) \<noteq> 0"
    "jack_client ex_data = Some 7" "jack_get_buffer_size ex_env_resized 7 = 1"
    by (simp_all add: ex_data_def ex_env_resized_def)
  from resize_result [OF this(1,2) ex_valid this(3,4)]
  show ?thesis by (auto simp: ex_env_resized_def ex_env_def ex_world_def)
qed

text \<open>
  The worker's body is its cursor check followed by the transfer. When the buffer-size
  callback runs between the two on the example session, the worker's increment lands
  on the cursors the resize has just reset: the read cursor is 1 and the write cursor 0.
\<close>

lemma upt_0_4: "[0..<4] = [0, 1, 2, 3]"
  by code_simp

lemma jack_transfer_worker_body_split:
  "jack_transfer_worker_body e (d, w) =
     (if rb_write d \<le>s rb_read d then Some (d, emit (Os_sleep_ms 20) w)
      else jack_transfer_worker_transfer e (rb_read d) (d, w))"
  by (simp add: jack_transfer_worker_body_def jack_transfer_worker_transfer_def Let_def)

lemma resize_between_check_and_transfer:
  "\<not> rb_write ex_data \<le>s rb_read ex_data \<and>
   map_option (\<lambda>s. (rb_read (fst s), rb_write (fst s)))
     (Option.bind (jack_buffer_size_callback ex_env_resized 1 (ex_data, ex_world))
        (\<lambda>r. jack_transfer_worker_transfer ex_env_resized (rb_read ex_data) (snd r))) =
   Some (1, 0)"
  by (simp add: jack_buffer_size_callback_def jack_transfer_worker_transfer_def
      destroy_rb_def destroy_rb_item_def destroy_rb_channel_def bfree_def
      ex_env_resized_def ex_env_def ex_data_def ex_world_def ex_mem_def
      create_rb_def guard_def bzalloc_def upt_0_2 upt_0_4
      create_rb_item_def create_rb_channel_def update_item_def load_items_def index_def
      store_channel_def load_channels_def emit_def fun_eq_iff replicate_numeral
      word_sle_eq MAX_AV_PLANES_def Let_def)

lemma ex_process_last:
  "map_option (rb_write \<circ> fst)
     (run ex_env (Producer_write 2) (ex_data\<lparr>rb_write := LONG_MAX\<rparr>, ex_world0)) =
   Some (LONG_MAX + 1) \<and> \<not> LONG_MAX \<le>s LONG_MAX + 1"
  by (simp add: jack_process_callback_def ex_data_def ex_world_def ex_world0_def ex_env_def
      guard_def copy_port_def load_ports_def load_items_def load_channels_def load_samples_def
      index_def memcpy_def update_item_def emit_def ex_mem0_def ex_mem_def fun_eq_iff upt_0_2
      LONG_MAX_def word_sle_eq)

section \<open>Properties\<close>

subsection \<open>C1: the producer writes one slot\<close>

text \<open>
  C1. Called on a session with \<open>nf\<close> frames on each of its ports,
  \<open>jack_process_callback\<close> returns 0 and leaves the ring buffer as it was except for
  the slot at \<open>rb_write\<close> modulo \<open>rb_items\<close>: there every channel holds the port's
  \<open>nf\<close> samples (followed by what the channel held beyond \<open>nf\<close>, when the period
  is shorter than the buffer), the frame count is \<open>nf\<close> and the timestamp is
  \<open>jack_frames_to_time\<close> of \<open>jack_last_frame_time\<close>. Then \<open>rb_write\<close> is
  incremented by one, which is the call's only event. The session needs a valid ring
  buffer with at least one slot, registered ports, a client, a cursor that is not
  negative and \<open>nf\<close> no larger than \<open>rb_buffer_size\<close>; the ring buffer stays valid.
\<close>

theorem jack_process_callback_writes_slot:
  assumes valid: "rb_valid (d, w)"
    and slots: "ring_buffer (d, w) = Some slots"
    and ports: "load_ports w (jack_ports d) = Some (map Some ports)"
    and n_ports: "length ports = unat (channels d)"
    and client: "jack_client d = Some c"
    and nz: "rb_items d \<noteq> 0"
    and nonneg: "0 \<le>s rb_write d"
    and fits: "unat nf \<le> unat (rb_buffer_size d)"
    and delivered: "\<forall>p\<in>set ports. length (jack_port_get_buffer e p nf) = unat nf"
  shows "\<exists>w'. jack_process_callback e nf (Some (d, w)) =
                 Some (0, Some (d\<lparr>rb_write := rb_write d + 1\<rparr>, w')) \<and>
           ring_buffer (d\<lparr>rb_write := rb_write d + 1\<rparr>, w') =
             Some (slots[nat (sint (rb_write d)) mod unat (rb_items d) :=
                (map2 (\<lambda>p old. jack_port_get_buffer e p nf @ drop (unat nf) old) ports
                   (fst (slots ! (nat (sint (rb_write d)) mod unat (rb_items d)))),
                 nf,
                 jack_frames_to_time e c (jack_last_frame_time e c))]) \<and>
           trace w' = trace w @ [Os_atomic_inc_long Rb_write] \<and>
           rb_valid (d\<lparr>rb_write := rb_write d + 1\<rparr>, w')"
proof -
  define k where "k = nat (sint (rb_write d)) mod unat (rb_items d)"
  define n where "n = unat nf"
  define t where "t = jack_frames_to_time e c (jack_last_frame_time e c)"
  from valid obtain lay a where a: "rb d = Some a" and lay: "rb_layout (d, w) = Some lay"
    and len: "length lay = unat (rb_items d)"
    and shape: "\<forall>l\<in>set lay. length (snd l) = unat (channels d) \<and>
           (\<forall>s\<in>set (snd l). \<exists>xs. mem w s = Some (Samples xs) \<and>
                                  length xs = unat (rb_buffer_size d))"
    and dist: "distinct (concat (map slot_blocks lay) @ [a])"
    and below: "\<forall>x\<in>set (concat (map slot_blocks lay) @ [a]). x < next_addr w"
    by (auto simp: rb_valid_iff)
  from lay a obtain items where items: "mem w a = Some (Items items)"
    and len_items: "length items = length lay"
    and slot: "\<forall>i<length lay. buffer (items ! i) = Some (fst (lay ! i)) \<and>
           mem w (fst (lay ! i)) = Some (Channels (map Some (snd (lay ! i))))"
    by (auto simp: rb_layout_Some)
  from slots a items have len_slots: "length slots = length items"
    and contents: "\<forall>i<length slots. slot_contents w (items ! i) = Some (slots ! i)"
    by (auto simp: ring_buffer_Some)
  have "unat (rb_items d) \<noteq> 0" using nz by (simp add: unat_eq_zero)
  then have k: "k < length lay" by (simp add: k_def len)
  have idx: "unat (rb_write d mod rb_items d) = k"
    by (simp add: k_def cursor_index [OF nonneg])
  define b where "b = fst (lay ! k)"
  define ss where "ss = snd (lay ! k)"
  have bk: "buffer (items ! k) = Some b" and chans: "mem w b = Some (Channels (map Some ss))"
    using slot k by (simp_all add: b_def ss_def)
  have len_ss: "length ss = unat (channels d)"
    and typed: "\<forall>s\<in>set ss. \<exists>xs. mem w s = Some (Samples xs) \<and> length xs = unat (rb_buffer_size d)"
    using shape k nth_mem [of k lay] by (auto simp: ss_def)
  have dist_ss: "distinct ss" and b_ss: "b \<notin> set ss" and a_ss: "a \<notin> set ss" and ab: "a \<noteq> b"
    using rb_valid_blocks(1-4) [OF dist k] by (simp_all add: ss_def b_def)
  from ports obtain pa where pa: "jack_ports d = Some pa" "mem w pa = Some (Ports (map Some ports))"
    by (auto simp: load_ports_Some)
  have "\<exists>w'. for_loop [0..<unat (channels d)] (copy_port e d k nf) w = Some w' \<and>
           trace w' = trace w \<and> next_addr w' = next_addr w \<and>
           (\<forall>x. x \<notin> set (take (unat (channels d)) ss) \<longrightarrow> mem w' x = mem w x) \<and>
           (\<forall>i<unat (channels d). \<exists>old. mem w (ss ! i) = Some (Samples old) \<and>
              mem w' (ss ! i) =
                Some (Samples (take (unat nf) (jack_port_get_buffer e (ports ! i) nf) @
                               drop (unat nf) old)))"
    using typed fits delivered k len_items
    by (intro copy_loop [OF a items _ bk chans pa dist_ss]) (auto simp: len_ss n_ports)
  then obtain w1 where loop: "for_loop [0..<unat (channels d)] (copy_port e d k nf) w = Some w1"
    and tr1: "trace w1 = trace w" and next1: "next_addr w1 = next_addr w"
    and frame: "\<forall>x. x \<notin> set ss \<longrightarrow> mem w1 x = mem w x"
    and copied: "\<forall>i<length ss. \<exists>old. mem w (ss ! i) = Some (Samples old) \<and>
              mem w1 (ss ! i) =
                Some (Samples (jack_port_get_buffer e (ports ! i) nf @ drop n old))"
    using delivered n_ports by (auto simp: len_ss n_def)
  have items1: "mem w1 a = Some (Items items)" using frame a_ss items by simp
  define item' where "item' = (items ! k)\<lparr>nframes := nf, timestamp := t\<rparr>"
  define w' where "w' = w1\<lparr>mem := (mem w1)(a \<mapsto> Items (items[k := item'])),
                          trace := trace w @ [Os_atomic_inc_long Rb_write]\<rparr>"
  have call: "jack_process_callback e nf (Some (d, w)) =
                 Some (0, Some (d\<lparr>rb_write := rb_write d + 1\<rparr>, w'))"
    using nz k len_items
    by (simp add: jack_process_callback_def guard_def idx loop a client
        update_item_Some [OF items1] update_item_Some emit_def w'_def item'_def t_def tr1)
  have mem': "\<And>x. x \<noteq> a \<Longrightarrow> mem w' x = mem w1 x" by (simp add: w'_def)
  have slot': "slot_contents w' ((items[k := item']) ! i) =
      Some ((slots[k := (map2 (\<lambda>p old. jack_port_get_buffer e p nf @ drop n old) ports
                          (fst (slots ! k)), nf, t)]) ! i)"
    if i: "i < length slots" for i
  proof -
    have i_lay: "i < length lay" using i len_slots len_items by simp
    define bi where "bi = fst (lay ! i)"
    define si where "si = snd (lay ! i)"
    have bi: "buffer (items ! i) = Some bi" "mem w bi = Some (Channels (map Some si))"
      using slot i_lay by (simp_all add: bi_def si_def)
    from contents i have ci: "slot_samples w (items ! i) = Some (fst (slots ! i))"
      "nframes (items ! i) = fst (snd (slots ! i))" "timestamp (items ! i) = snd (snd (slots ! i))"
      by (simp_all add: slot_contents_Some)
    from ci(1) bi have old: "length (fst (slots ! i)) = length si"
      "\<forall>j<length si. mem w (si ! j) = Some (Samples (fst (slots ! i) ! j))"
      by (auto simp: slot_samples_Some dest: map_injective)
    have a_bi: "a \<noteq> bi" "a \<notin> set si"
      using rb_valid_blocks(3,4) [OF dist i_lay] by (simp_all add: bi_def si_def)
    show ?thesis
    proof (cases "i = k")
      case True
      then have eq: "bi = b" "si = ss" by (simp_all add: bi_def si_def b_def ss_def)
      have chans': "mem w' b = Some (Channels (map Some ss))"
        using mem' [of b] frame b_ss ab chans by simp
      have smp: "\<forall>j<length ss. mem w' (ss ! j) =
          Some (Samples (map2 (\<lambda>p old. jack_port_get_buffer e p nf @ drop n old) ports
                          (fst (slots ! k)) ! j))"
      proof (intro allI impI)
        fix j assume j: "j < length ss"
        then have "ss ! j \<noteq> a" using a_ss by (metis nth_mem)
        moreover from copied j obtain o' where "mem w (ss ! j) = Some (Samples o')"
          "mem w1 (ss ! j) = Some (Samples (jack_port_get_buffer e (ports ! j) nf @ drop n o'))"
          by blast
        moreover have "mem w (ss ! j) = Some (Samples (fst (slots ! k) ! j))"
          using old(2) j True eq by simp
        ultimately show "mem w' (ss ! j) =
          Some (Samples (map2 (\<lambda>p old. jack_port_get_buffer e p nf @ drop n old) ports
                          (fst (slots ! k)) ! j))"
          using j old(1) True eq n_ports len_ss by (simp add: mem')
      qed
      have "slot_samples w' item' =
          Some (map2 (\<lambda>p old. jack_port_get_buffer e p nf @ drop n old) ports (fst (slots ! k)))"
        unfolding slot_samples_Some
        using bk chans' smp old(1) True eq n_ports len_ss
        by (intro exI [of _ b] exI [of _ ss]) (simp add: item'_def)
      then show ?thesis
        using True i k len_items len_slots by (simp add: slot_contents_Some item'_def)
    next
      case False
      have disj: "set (slot_blocks (lay ! k)) \<inter> set (slot_blocks (lay ! i)) = {}"
        using rb_valid_blocks(5) [OF dist k i_lay] False by simp
      then have "bi \<notin> set ss" "set si \<inter> set ss = {}"
        by (auto simp: slot_blocks_def bi_def si_def ss_def)
      then have "mem w' bi = mem w bi" "\<forall>j<length si. mem w' (si ! j) = mem w (si ! j)"
        using a_bi frame mem' by (auto simp: disjoint_iff) (metis nth_mem)+
      then have "slot_samples w' (items ! i) = Some (fst (slots ! i))"
        unfolding slot_samples_Some using bi old
        by (intro exI [of _ bi] exI [of _ si]) simp
      then show ?thesis using False ci by (simp add: slot_contents_Some)
    qed
  qed
  have "ring_buffer (d\<lparr>rb_write := rb_write d + 1\<rparr>, w') =
      Some (slots[k := (map2 (\<lambda>p old. jack_port_get_buffer e p nf @ drop n old) ports
                          (fst (slots ! k)), nf, t)])"
    unfolding ring_buffer_Some
    using a len_slots slot'
    by (intro exI [of _ a] exI [of _ "items[k := item']"]) (simp add: w'_def)
  moreover have "trace w' = trace w @ [Os_atomic_inc_long Rb_write]" by (simp add: w'_def)
  moreover have "rb_valid (d\<lparr>rb_write := rb_write d + 1\<rparr>, w')"
  proof -
    have keep: "mem w' x = mem w x" if "x \<noteq> a" "x \<notin> set ss" for x
      using that frame by (simp add: mem')
    have a_block: "a \<notin> set (slot_blocks l)" if "l \<in> set lay" for l
      using dist that by auto
    have chan_keep: "mem w' (fst (lay ! i)) = mem w (fst (lay ! i))" if i: "i < length lay" for i
    proof (rule keep)
      show "fst (lay ! i) \<noteq> a" using a_block [of "lay ! i"] i by (auto simp: slot_blocks_def)
      show "fst (lay ! i) \<notin> set ss"
      proof (cases "i = k")
        case True then show ?thesis using b_ss by (simp add: b_def)
      next
        case False
        then show ?thesis
          using rb_valid_blocks(5) [OF dist k i] by (auto simp: slot_blocks_def ss_def)
      qed
    qed
    have layout': "rb_layout (d\<lparr>rb_write := rb_write d + 1\<rparr>, w') = Some lay"
      unfolding rb_layout_Some
      using a len_items slot chan_keep k
      by (intro exI [of _ a] exI [of _ "items[k := item']"])
         (auto simp: w'_def item'_def nth_list_update)
    have typed': "\<exists>xs. mem w' s = Some (Samples xs) \<and> length xs = unat (rb_buffer_size d)"
      if l: "l \<in> set lay" and s: "s \<in> set (snd l)" for l s
    proof (cases "s \<in> set ss")
      case True
      then obtain j where j: "j < length ss" "s = ss ! j" by (auto simp: in_set_conv_nth)
      with copied obtain old where old: "mem w s = Some (Samples old)"
        "mem w1 s = Some (Samples (jack_port_get_buffer e (ports ! j) nf @ drop n old))"
        by blast
      have "length old = unat (rb_buffer_size d)" using typed True old(1) by auto
      moreover have "length (jack_port_get_buffer e (ports ! j) nf) = n"
        using delivered j(1) n_ports len_ss by (simp add: n_def)
      moreover have "s \<noteq> a" using True a_ss by auto
      ultimately show ?thesis using old(2) fits by (simp add: mem' n_def)
    next
      case False
      moreover have "s \<noteq> a" using a_block [OF l] s by (auto simp: slot_blocks_def)
      ultimately have "mem w' s = mem w s" by (simp add: keep)
      then show ?thesis using shape l s by auto
    qed
    show ?thesis
      unfolding rb_valid_iff
      using a layout' len shape typed' dist below
      by (intro exI [of _ lay] exI [of _ a]) (simp add: w'_def next1)
  qed
  ultimately show ?thesis using call unfolding k_def n_def t_def by blast
qed

theorem jack_process_callback_writes_slot_witness:
  "\<exists>w'. jack_process_callback ex_env 2 (Some (ex_data\<lparr>rb_write := 0\<rparr>, ex_world0)) =
           Some (0, Some (ex_data, w')) \<and>
         ring_buffer (ex_data, w') =
           Some [([[5, 6], [7, 8]], 2, 1000), ([[0, 0], [0, 0]], 0, 0)] \<and>
         trace w' = [Os_atomic_inc_long Rb_write] \<and>
         rb_valid (ex_data, w')"
proof -
  have ports: "load_ports ex_world0 (jack_ports (ex_data\<lparr>rb_write := 0\<rparr>)) = Some (map Some [11, 12])"
    by (simp add: load_ports_def ex_data_def ex_world0_def ex_mem0_def)
  have rest: "length [11 :: jack_port_t, 12] = unat (channels (ex_data\<lparr>rb_write := 0\<rparr>))"
    "jack_client (ex_data\<lparr>rb_write := 0\<rparr>) = Some 7"
    "rb_items (ex_data\<lparr>rb_write := 0\<rparr>) \<noteq> 0"
    "0 \<le>s rb_write (ex_data\<lparr>rb_write := 0\<rparr>)"
    "unat (2 :: jack_nframes_t) \<le> unat (rb_buffer_size (ex_data\<lparr>rb_write := 0\<rparr>))"
    "\<forall>p\<in>set [11, 12]. length (jack_port_get_buffer ex_env p 2) = unat (2 :: jack_nframes_t)"
    by (simp_all add: ex_data_def ex_env_def)
  from jack_process_callback_writes_slot [OF ex0_valid ex0_ring_buffer ports rest]
  show ?thesis
    by (simp add: ex_data_def ex_env_def ex_world0_def)
qed

subsection \<open>C2: one iteration of the consumer\<close>

text \<open>
  C2. In an iteration of the worker's loop while \<open>activated\<close> is set: if
  \<open>rb_read >= rb_write\<close> the worker sleeps 20 ms and reads nothing. Otherwise it takes
  the lock, forwards one block to OBS and releases the lock, then increments
  \<open>rb_read\<close>. The block has the planar float format, the speaker layout of the channel
  count, the engine's sample rate, the channel pointers, frame count and timestamp
  (times 1000, in 64 bits) of the slot at \<open>rb_read\<close> modulo \<open>rb_items\<close>.
  The read needs a valid ring buffer with at least one slot, a client, at most
  \<open>MAX_AV_PLANES\<close> channels and a cursor that is not negative.
\<close>

theorem jack_transfer_worker_iteration:
  "(rb_write d \<le>s rb_read d \<longrightarrow>
      jack_transfer_worker_body e (d, w) = Some (d, w\<lparr>trace := trace w @ [Os_sleep_ms 20]\<rparr>)) \<and>
   (\<not> rb_write d \<le>s rb_read d \<and> 0 \<le>s rb_read d \<and> rb_valid (d, w) \<and> rb_items d \<noteq> 0 \<and>
    unat (channels d) \<le> MAX_AV_PLANES \<and> jack_client d = Some c \<and>
    rb_layout (d, w) = Some lay \<and> ring_buffer (d, w) = Some slots \<longrightarrow>
      jack_transfer_worker_body e (d, w) =
        Some (d\<lparr>rb_read := rb_read d + 1\<rparr>,
              w\<lparr>trace := trace w @
                [Pthread_mutex_lock,
                 Obs_source_output_audio (source d)
                   \<lparr>obs_source_audio.data =
                      map Some (snd (lay ! (nat (sint (rb_read d)) mod unat (rb_items d)))),
                    frames = fst (snd (slots ! (nat (sint (rb_read d)) mod unat (rb_items d)))),
                    obs_source_audio.speakers = jack_channels_to_obs_speakers (ucast (channels d)),
                    format = AUDIO_FORMAT_FLOAT_PLANAR,
                    samples_per_sec = jack_get_sample_rate e c,
                    obs_source_audio.timestamp =
                      snd (snd (slots ! (nat (sint (rb_read d)) mod unat (rb_items d)))) * 1000\<rparr>,
                 Pthread_mutex_unlock,
                 Os_atomic_inc_long Rb_read]\<rparr>))"
proof (intro conjI impI)
  assume "rb_write d \<le>s rb_read d"
  then show "jack_transfer_worker_body e (d, w) = Some (d, w\<lparr>trace := trace w @ [Os_sleep_ms 20]\<rparr>)"
    by (simp add: jack_transfer_worker_body_def emit_def)
next
  assume h: "\<not> rb_write d \<le>s rb_read d \<and> 0 \<le>s rb_read d \<and> rb_valid (d, w) \<and> rb_items d \<noteq> 0 \<and>
    unat (channels d) \<le> MAX_AV_PLANES \<and> jack_client d = Some c \<and>
    rb_layout (d, w) = Some lay \<and> ring_buffer (d, w) = Some slots"
  define k where "k = nat (sint (rb_read d)) mod unat (rb_items d)"
  from h have lay: "rb_layout (d, w) = Some lay" and slots: "ring_buffer (d, w) = Some slots"
    and nonneg: "0 \<le>s rb_read d" and nz: "rb_items d \<noteq> 0" and valid: "rb_valid (d, w)"
    and planes: "unat (channels d) \<le> MAX_AV_PLANES" and c: "jack_client d = Some c"
    and avail: "\<not> rb_write d \<le>s rb_read d"
    by simp_all
  from valid lay have len: "length lay = unat (rb_items d)"
    and chans: "\<forall>l\<in>set lay. length (snd l) = unat (channels d)"
    by (auto simp: rb_valid_iff)
  from lay obtain a items where a: "rb d = Some a" and items: "mem w a = Some (Items items)"
    and len_items: "length items = length lay"
    and slot: "\<forall>i<length lay. buffer (items ! i) = Some (fst (lay ! i)) \<and>
           mem w (fst (lay ! i)) = Some (Channels (map Some (snd (lay ! i))))"
    by (auto simp: rb_layout_Some)
  have "unat (rb_items d) \<noteq> 0" using nz by (simp add: unat_eq_zero)
  then have k: "k < length lay" by (simp add: k_def len)
  have idx: "unat (rb_read d mod rb_items d) = k"
    by (simp add: k_def cursor_index [OF nonneg])
  from slots a items have contents: "slot_contents w (items ! k) = Some (slots ! k)"
    using k len_items by (auto simp: ring_buffer_Some)
  have planes_k: "length (snd (lay ! k)) \<le> MAX_AV_PLANES"
    using chans k planes by simp
  have chan_k: "length (snd (lay ! k)) = unat (channels d)"
    using chans k by simp
  have collect: "for_loop [0..<unat (channels d)] (\<lambda>i out_data. do {
           guard (i < MAX_AV_PLANES);
           items \<leftarrow> load_items (emit Pthread_mutex_lock w) (Some a);
           item \<leftarrow> index items k;
           chans \<leftarrow> load_channels (emit Pthread_mutex_lock w) (buffer item);
           p \<leftarrow> index chans i;
           Some (out_data @ [p])
         }) [] = Some (map Some (snd (lay ! k)))"
    using collect_loop [of "emit Pthread_mutex_lock w" a items k "fst (lay ! k)" "snd (lay ! k)"
        "unat (channels d)"] items planes_k slot k len_items chan_k
    by (simp add: emit_def)
  show "jack_transfer_worker_body e (d, w) =
        Some (d\<lparr>rb_read := rb_read d + 1\<rparr>,
              w\<lparr>trace := trace w @
                [Pthread_mutex_lock,
                 Obs_source_output_audio (source d)
                   \<lparr>obs_source_audio.data =
                      map Some (snd (lay ! (nat (sint (rb_read d)) mod unat (rb_items d)))),
                    frames = fst (snd (slots ! (nat (sint (rb_read d)) mod unat (rb_items d)))),
                    obs_source_audio.speakers = jack_channels_to_obs_speakers (ucast (channels d)),
                    format = AUDIO_FORMAT_FLOAT_PLANAR,
                    samples_per_sec = jack_get_sample_rate e c,
                    obs_source_audio.timestamp =
                      snd (snd (slots ! (nat (sint (rb_read d)) mod unat (rb_items d)))) * 1000\<rparr>,
                 Pthread_mutex_unlock,
                 Os_atomic_inc_long Rb_read]\<rparr>)"
    unfolding k_def [symmetric]
    using avail nz c contents k len_items
    by (simp add: jack_transfer_worker_body_def Let_def idx a collect)
      (simp add: emit_def guard_def load_items_def items index_def slot_contents_Some)
qed

theorem jack_transfer_worker_iteration_witness:
  "jack_transfer_worker_body ex_env (ex_data\<lparr>rb_read := 1\<rparr>, ex_world) =
     Some (ex_data\<lparr>rb_read := 1\<rparr>, ex_world\<lparr>trace := [Os_sleep_ms 20]\<rparr>) \<and>
   jack_transfer_worker_body ex_env (ex_data, ex_world) =
     Some (ex_data\<lparr>rb_read := 1\<rparr>,
           ex_world\<lparr>trace :=
             [Pthread_mutex_lock,
              Obs_source_output_audio 1
                \<lparr>obs_source_audio.data = [Some 3, Some 4], frames = 2,
                 obs_source_audio.speakers = SPEAKERS_STEREO,
                 format = AUDIO_FORMAT_FLOAT_PLANAR, samples_per_sec = 4,
                 obs_source_audio.timestamp = 1000000\<rparr>,
              Pthread_mutex_unlock,
              Os_atomic_inc_long Rb_read]\<rparr>)"
proof -
  have idle: "rb_write (ex_data\<lparr>rb_read := 1\<rparr>) \<le>s rb_read (ex_data\<lparr>rb_read := 1\<rparr>)"
    by (simp add: ex_data_def word_sle_eq)
  have pending: "\<not> rb_write ex_data \<le>s rb_read ex_data \<and> 0 \<le>s rb_read ex_data \<and>
      rb_items ex_data \<noteq> 0 \<and> unat (channels ex_data) \<le> MAX_AV_PLANES \<and>
      jack_client ex_data = Some 7"
    by (simp add: ex_data_def MAX_AV_PLANES_def word_sle_eq)
  from idle pending ex_layout ex_ring_buffer ex_valid
    jack_transfer_worker_iteration [of "ex_data\<lparr>rb_read := 1\<rparr>" ex_env ex_world]
    jack_transfer_worker_iteration [of ex_data ex_env ex_world 7 "[(2, [3, 4]), (5, [6, 7])]"
      "[([[5, 6], [7, 8]], 2, 1000), ([[0, 0], [0, 0]], 0, 0)]"]
  show ?thesis
    by (simp add: ex_data_def ex_env_def ex_world_def jack_channels_to_obs_speakers_def)
qed

subsection \<open>C3: the cursors across the three operations\<close>

text \<open>
  C3, as the code has it. The producer leaves the read cursor and adds 1 to the write
  cursor, which therefore does not decrease unless it was \<open>LONG_MAX\<close>, where the
  64-bit increment wraps. One iteration of the worker leaves the write cursor and does
  not decrease the read cursor: it adds 1 when the read cursor is below the write
  cursor, and nothing otherwise. The buffer-size callback leaves both cursors when the
  size is the stored one, and otherwise sets both to 0, so across a resize the cursors
  do decrease.
\<close>

theorem cursors_per_operation:
  assumes "run e op (d, w) = Some (d', w')"
  shows "case op of
      Producer_write nf \<Rightarrow>
        rb_read d' = rb_read d \<and> rb_write d' = rb_write d + 1 \<and>
        (rb_write d \<noteq> LONG_MAX \<longrightarrow> rb_write d \<le>s rb_write d')
    | Consumer_read \<Rightarrow>
        rb_write d' = rb_write d \<and> rb_read d \<le>s rb_read d' \<and>
        rb_read d' = (if rb_write d \<le>s rb_read d then rb_read d else rb_read d + 1)
    | Resize nf \<Rightarrow>
        (if nf = rb_buffer_size d then rb_read d' = rb_read d \<and> rb_write d' = rb_write d
         else rb_read d' = 0 \<and> rb_write d' = 0)"
proof (cases op)
  case (Producer_write nf)
  with assms have d': "d' = d\<lparr>rb_write := rb_write d + 1\<rparr>"
    by (auto simp: jack_process_callback_def Let_def split: Option.bind_splits)
  have "rb_write d \<le>s rb_write d + 1" if "rb_write d \<noteq> LONG_MAX"
    using sint_succ [OF that] by (simp add: word_sle_eq)
  then show ?thesis by (simp add: Producer_write d')
next
  case Consumer_read
  show ?thesis
  proof (cases "rb_write d \<le>s rb_read d")
    case True
    with assms Consumer_read have "d' = d"
      by (simp add: jack_transfer_worker_body_def)
    then show ?thesis using True by (simp add: Consumer_read)
  next
    case False
    with assms Consumer_read have d': "d' = d\<lparr>rb_read := rb_read d + 1\<rparr>"
      by (auto simp: jack_transfer_worker_body_def Let_def split: Option.bind_splits)
    from False have less: "rb_read d <s rb_write d" by (simp add: word_sle_eq word_sless_alt)
    then have "sint (rb_read d + 1) = sint (rb_read d) + 1"
      by (intro sint_succ sless_not_max)
    then show ?thesis using False by (simp add: Consumer_read d' word_sle_eq)
  qed
next
  case (Resize nf)
  show ?thesis
  proof (cases "nf = rb_buffer_size d")
    case True
    with assms Resize have "d' = d" by (simp add: jack_buffer_size_callback_def)
    then show ?thesis using True by (simp add: Resize)
  next
    case False
    with assms Resize have "rb_read d' = 0 \<and> rb_write d' = 0"
      by (auto simp: jack_buffer_size_callback_def Let_def dest: create_rb_cursors
          split: Option.bind_splits prod.splits)
    then show ?thesis using False by (simp add: Resize)
  qed
qed

text \<open>
  The cursors are not non-decreasing across every operation. In the example session
  the write cursor is 1 before the engine switches to periods of 1 frame, and 0 after
  the resize. And a producer write on a write cursor of \<open>LONG_MAX\<close> wraps it to
  the least \<open>long\<close>.
\<close>

theorem cursors_per_operation_counterexample:
  "map_option (rb_write \<circ> fst) (run ex_env_resized (Resize 1) (ex_data, ex_world)) = Some 0 \<and>
   rb_write ex_data = 1 \<and> \<not> rb_write ex_data \<le>s 0 \<and>
   map_option (rb_write \<circ> fst)
     (run ex_env (Producer_write 2) (ex_data\<lparr>rb_write := LONG_MAX\<rparr>, ex_world0)) =
   Some (LONG_MAX + 1) \<and> \<not> LONG_MAX \<le>s LONG_MAX + 1"
proof -
  from ex_resize obtain w' where
    "jack_buffer_size_callback ex_env_resized 1 (ex_data, ex_world) =
       Some (0, (ex_data\<lparr>rb_buffer_size := 1, rb_items := 4, rb := Some 8,
                         rb_read := 0, rb_write := 0\<rparr>, w'))" ..
  then have reset:
    "map_option (rb_write \<circ> fst) (run ex_env_resized (Resize 1) (ex_data, ex_world)) = Some 0"
    by simp
  have before: "rb_write ex_data = 1 \<and> \<not> rb_write ex_data \<le>s 0"
    by (simp add: ex_data_def word_sle_eq)
  from reset before ex_process_last show ?thesis by blast
qed

text \<open>The four cases on the example session.\<close>

theorem cursors_per_operation_witness:
  "(\<exists>d' w'. run ex_env (Producer_write 2) (ex_data\<lparr>rb_write := 0\<rparr>, ex_world0) = Some (d', w') \<and>
      rb_read d' = 0 \<and> rb_write d' = 1 \<and> (0 :: long) \<le>s rb_write d') \<and>
   (\<exists>d' w'. run ex_env Consumer_read (ex_data, ex_world) = Some (d', w') \<and>
      rb_read d' = 1 \<and> rb_write d' = 1 \<and> (0 :: long) \<le>s rb_read d') \<and>
   (\<exists>d' w'. run ex_env_resized (Resize 1) (ex_data, ex_world) = Some (d', w') \<and>
      rb_read d' = 0 \<and> rb_write d' = 0) \<and>
   (\<exists>d' w'. run ex_env (Resize 2) (ex_data, ex_world) = Some (d', w') \<and>
      rb_read d' = 0 \<and> rb_write d' = 1)"
proof -
  have fresh: "rb_write (ex_data\<lparr>rb_write := 0\<rparr>) \<noteq> LONG_MAX"
    by (simp add: ex_data_def LONG_MAX_def)
  have produce: "run ex_env (Producer_write 2) (ex_data\<lparr>rb_write := 0\<rparr>, ex_world0) =
      Some (ex_data, ex_world\<lparr>trace := [Os_atomic_inc_long Rb_write]\<rparr>)"
    by (simp add: ex_process)
  have consume: "run ex_env Consumer_read (ex_data, ex_world) =
      Some (ex_data\<lparr>rb_read := 1\<rparr>,
           ex_world\<lparr>trace :=
             [Pthread_mutex_lock,
              Obs_source_output_audio 1
                \<lparr>obs_source_audio.data = [Some 3, Some 4], frames = 2,
                 obs_source_audio.speakers = SPEAKERS_STEREO,
                 format = AUDIO_FORMAT_FLOAT_PLANAR, samples_per_sec = 4,
                 obs_source_audio.timestamp = 1000000\<rparr>,
              Pthread_mutex_unlock,
              Os_atomic_inc_long Rb_read]\<rparr>)"
    by (simp add: ex_consume)
  from ex_resize obtain w' where resize: "run ex_env_resized (Resize 1) (ex_data, ex_world) =
      Some (ex_data\<lparr>rb_buffer_size := 1, rb_items := 4, rb := Some 8,
                     rb_read := 0, rb_write := 0\<rparr>, w')"
    by auto
  have same: "run ex_env (Resize 2) (ex_data, ex_world) = Some (ex_data, ex_world)"
    by (simp add: jack_buffer_size_callback_def ex_data_def)
  from fresh cursors_per_operation [OF produce] cursors_per_operation [OF consume]
    cursors_per_operation [OF resize] cursors_per_operation [OF same]
  show ?thesis
    unfolding produce consume resize same
    by (simp add: ex_data_def word_sle_eq)
qed

subsection \<open>C4: the resize callback\<close>

text \<open>
  C4. \<open>jack_buffer_size_callback\<close> with the stored period size returns 0 and changes
  nothing. With another size \<open>nf\<close> (not 0, and the size the engine reports, which
  \<open>create_rb\<close> reads again) it takes the lock, resets the cursors, frees every block
  of the current ring buffer, stores \<open>nf\<close> as the period size, allocates a ring
  buffer of (sample rate div \<open>nf\<close>) zeroed slots with \<open>channels\<close> arrays of \<open>nf\<close>
  samples each, sets both cursors to 0 and releases the lock: what was buffered is gone.
\<close>

theorem jack_buffer_size_callback_resizes:
  "(nf = rb_buffer_size d \<longrightarrow> jack_buffer_size_callback e nf (d, w) = Some (0, (d, w))) \<and>
   (nf \<noteq> rb_buffer_size d \<and> nf \<noteq> 0 \<and> rb_valid (d, w) \<and> jack_client d = Some c \<and>
    jack_get_buffer_size e c = nf \<longrightarrow>
      (\<exists>d' w'. jack_buffer_size_callback e nf (d, w) = Some (0, (d', w')) \<and>
         d' = d\<lparr>rb_buffer_size := nf,
                rb_items := ucast (jack_get_sample_rate e c div nf),
                rb := Some (next_addr w), rb_read := 0, rb_write := 0\<rparr> \<and>
         rb_valid (d', w') \<and>
         ring_buffer (d', w') =
           Some (replicate (unat (jack_get_sample_rate e c) div unat nf)
                  (replicate (unat (channels d)) (replicate (unat nf) 0), 0, 0)) \<and>
         (\<forall>x\<in>set (rb_blocks (d, w)). mem w' x = None) \<and>
         trace w' = trace w @
           [Pthread_mutex_lock, Os_atomic_set_long Rb_write 0, Os_atomic_set_long Rb_read 0] @
           map Bfree (rb_blocks (d, w)) @
           map Bzalloc [next_addr w..<next_addr w'] @
           [Store_long Rb_read 0, Store_long Rb_write 0, Pthread_mutex_unlock]))"
proof (intro conjI impI)
  assume "nf = rb_buffer_size d"
  then show "jack_buffer_size_callback e nf (d, w) = Some (0, (d, w))"
    by (simp add: jack_buffer_size_callback_def)
next
  assume "nf \<noteq> rb_buffer_size d \<and> nf \<noteq> 0 \<and> rb_valid (d, w) \<and> jack_client d = Some c \<and>
    jack_get_buffer_size e c = nf"
  then have "nf \<noteq> rb_buffer_size d" "nf \<noteq> 0" "rb_valid (d, w)" "jack_client d = Some c"
    "jack_get_buffer_size e c = nf"
    by simp_all
  from resize_result [OF this]
  show "\<exists>d' w'. jack_buffer_size_callback e nf (d, w) = Some (0, (d', w')) \<and>
         d' = d\<lparr>rb_buffer_size := nf,
                rb_items := ucast (jack_get_sample_rate e c div nf),
                rb := Some (next_addr w), rb_read := 0, rb_write := 0\<rparr> \<and>
         rb_valid (d', w') \<and>
         ring_buffer (d', w') =
           Some (replicate (unat (jack_get_sample_rate e c) div unat nf)
                  (replicate (unat (channels d)) (replicate (unat nf) 0), 0, 0)) \<and>
         (\<forall>x\<in>set (rb_blocks (d, w)). mem w' x = None) \<and>
         trace w' = trace w @
           [Pthread_mutex_lock, Os_atomic_set_long Rb_write 0, Os_atomic_set_long Rb_read 0] @
           map Bfree (rb_blocks (d, w)) @
           map Bzalloc [next_addr w..<next_addr w'] @
           [Store_long Rb_read 0, Store_long Rb_write 0, Pthread_mutex_unlock]"
    by blast
qed

theorem jack_buffer_size_callback_resizes_witness:
  "jack_buffer_size_callback ex_env 2 (ex_data, ex_world) = Some (0, (ex_data, ex_world)) \<and>
   (\<exists>d' w'. jack_buffer_size_callback ex_env_resized 1 (ex_data, ex_world) = Some (0, (d', w')) \<and>
      d' = ex_data\<lparr>rb_buffer_size := 1, rb_items := 4, rb := Some 8, rb_read := 0, rb_write := 0\<rparr> \<and>
      rb_valid (d', w') \<and>
      ring_buffer (d', w') = Some (replicate 4 ([[0], [0]], 0, 0)) \<and>
      mem w' 3 = None \<and> mem w' 1 = None \<and>
      trace w' =
        [Pthread_mutex_lock, Os_atomic_set_long Rb_write 0, Os_atomic_set_long Rb_read 0,
         Bfree 3, Bfree 4, Bfree 2, Bfree 6, Bfree 7, Bfree 5, Bfree 1] @
        map Bzalloc [8..<next_addr w'] @
        [Store_long Rb_read 0, Store_long Rb_write 0, Pthread_mutex_unlock])"
proof -
  have same: "(2 :: jack_nframes_t) = rb_buffer_size ex_data" by (simp add: ex_data_def)
  have differs: "(1 :: jack_nframes_t) \<noteq> rb_buffer_size ex_data \<and> (1 :: jack_nframes_t) \<noteq> 0 \<and>
      jack_client ex_data = Some 7 \<and> jack_get_buffer_size ex_env_resized 7 = 1"
    by (simp add: ex_data_def ex_env_resized_def)
  from same differs ex_valid
    jack_buffer_size_callback_resizes [of 2 ex_data ex_env ex_world]
    jack_buffer_size_callback_resizes [of 1 ex_data ex_env_resized ex_world 7]
  show ?thesis
    by (simp add: ex_blocks)
       (auto simp: ex_data_def ex_env_resized_def ex_env_def ex_world_def replicate_numeral)
qed

subsection \<open>C5: the capacity of a new ring buffer\<close>

text \<open>
  C5. For a sample rate \<open>R\<close> and a period size \<open>P\<close> (not 0) reported by the engine,
  \<open>create_rb\<close> leaves a ring buffer of \<open>R div P\<close> slots, each zeroed (frame count
  and timestamp 0) with \<open>channels\<close> sample arrays of \<open>P\<close> zero samples, and both
  cursors 0.
\<close>

theorem create_rb_capacity:
  assumes "jack_client d = Some c" and "jack_get_buffer_size e c \<noteq> 0"
  shows "\<exists>d' w'. create_rb e (d, w) = Some (d', w') \<and>
     rb_buffer_size d' = jack_get_buffer_size e c \<and>
     unat (rb_items d') = unat (jack_get_sample_rate e c) div unat (jack_get_buffer_size e c) \<and>
     ring_buffer (d', w') =
       Some (replicate (unat (jack_get_sample_rate e c) div unat (jack_get_buffer_size e c))
              (replicate (unat (channels d))
                 (replicate (unat (jack_get_buffer_size e c)) 0), 0, 0)) \<and>
     rb_read d' = 0 \<and> rb_write d' = 0 \<and> rb_valid (d', w')"
  using create_rb_result [OF assms, of w] by (auto simp: unat_capacity)

theorem create_rb_capacity_witness:
  "\<exists>d' w'. create_rb ex_env (ex_data, ex_world) = Some (d', w') \<and>
     rb_buffer_size d' = 2 \<and> unat (rb_items d') = 2 \<and>
     ring_buffer (d', w') = Some [([[0, 0], [0, 0]], 0, 0), ([[0, 0], [0, 0]], 0, 0)] \<and>
     rb_read d' = 0 \<and> rb_write d' = 0 \<and> rb_valid (d', w')"
proof -
  have "jack_client ex_data = Some 7" "jack_get_buffer_size ex_env 7 \<noteq> 0"
    by (simp_all add: ex_data_def ex_env_def)
  from create_rb_capacity [OF this, of ex_world]
  show ?thesis
    by (simp add: ex_data_def ex_env_def replicate_numeral)
qed

subsection \<open>C6: the speaker-layout table\<close>

text \<open>
  C6. The mapping returns mono for 1, stereo for 2, 2.1 for 3, 4.0 for 4, 4.1 for 5,
  5.1 for 6 and 7.1 for 8 channels, and "unknown" for every other channel count,
  7 included.
\<close>

theorem jack_channels_to_obs_speakers_table:
  "jack_channels_to_obs_speakers 1 = SPEAKERS_MONO \<and>
   jack_channels_to_obs_speakers 2 = SPEAKERS_STEREO \<and>
   jack_channels_to_obs_speakers 3 = SPEAKERS_2POINT1 \<and>
   jack_channels_to_obs_speakers 4 = SPEAKERS_4POINT0 \<and>
   jack_channels_to_obs_speakers 5 = SPEAKERS_4POINT1 \<and>
   jack_channels_to_obs_speakers 6 = SPEAKERS_5POINT1 \<and>
   jack_channels_to_obs_speakers 8 = SPEAKERS_7POINT1 \<and>
   jack_channels_to_obs_speakers 7 = SPEAKERS_UNKNOWN \<and>
   (\<forall>channels. channels \<notin> {1, 2, 3, 4, 5, 6, 8} \<longrightarrow>
      jack_channels_to_obs_speakers channels = SPEAKERS_UNKNOWN)"
  by (simp add: jack_channels_to_obs_speakers_def)

theorem jack_channels_to_obs_speakers_table_witness:
  "(0 :: uint_fast32_t) \<notin> {1, 2, 3, 4, 5, 6, 8} \<and>
   jack_channels_to_obs_speakers 0 = SPEAKERS_UNKNOWN \<and>
   jack_channels_to_obs_speakers 2 = SPEAKERS_STEREO"
  using jack_channels_to_obs_speakers_table by simp

subsection \<open>C7: a startup that fails\<close>

text \<open>
  C7, as the code has it. On a session without a client (and an engine that reports a
  period size other than 0) \<open>jack_init\<close> returns 0 or 1. When it returns 1, the trace
  it adds ends with the call that failed and no call before it failed; when it returns
  0, no call failed. In both cases nothing it did is a teardown step: no port is
  unregistered, no client closed or deactivated, no block freed, no thread joined, the
  activation flag never cleared. The client handle is whatever \<open>jack_client_open\<close>
  answered, and if that is a client the port array allocated for it is still in the
  session. Rolling back is left to the caller, with \<open>deactivate_jack\<close>.
\<close>

theorem jack_init_no_rollback:
  assumes "jack_client d = None" and "\<forall>c. jack_get_buffer_size e c \<noteq> 0"
  shows "\<exists>r d' w' evs. jack_init e (d, w) = Some (r, (d', w')) \<and> trace w' = trace w @ evs \<and>
     (if r = 0 then list_all (\<lambda>ev. \<not> call_failed e ev) evs
      else r = 1 \<and> stopped_at_failure e evs) \<and>
     list_all (\<lambda>ev. \<not> teardown ev) evs \<and>
     jack_client d' = jack_client_open e (device d)
                        (if start_jack_server d then JackNullOption else JackNoStartServer) \<and>
     (jack_client d' \<noteq> None \<longrightarrow> jack_ports d' = Some (next_addr w))"
  using assms by (rule jack_init_result)

text \<open>
  A failure does not leave the session torn down: when \<open>pthread_create\<close> fails,
  \<open>jack_init\<close> returns 1 on a session with an open and activated client, two
  registered ports and an allocated ring buffer.
\<close>

theorem jack_init_no_rollback_counterexample:
  "jack_init ex_env_no_thread (ex_data_closed, ex_world_empty) =
     Some (1, (ex_data\<lparr>rb_write := 0, transfer_thread := 0, transfer_thread_started := False\<rparr>,
               ex_world0\<lparr>trace := ex_init_trace\<rparr>)) \<and>
   jack_client ex_data = Some 7 \<and> jack_ports ex_data = Some 0 \<and> activated ex_data \<and>
   rb ex_data = Some 1 \<and> mem ex_world0 0 = Some (Ports [Some 11, Some 12]) \<and>
   rb_valid (ex_data\<lparr>rb_write := 0\<rparr>, ex_world0) \<and>
   list_all (\<lambda>ev. \<not> teardown ev) ex_init_trace"
  using ex0_valid
  by (simp add: ex_init_no_thread)
     (simp add: ex_data_def ex_world0_def ex_mem0_def ex_init_trace_def)

text \<open>The same startup, read through the theorem.\<close>

theorem jack_init_no_rollback_witness:
  "jack_init ex_env_no_thread (ex_data_closed, ex_world_empty) =
     Some (1, (ex_data\<lparr>rb_write := 0, transfer_thread := 0, transfer_thread_started := False\<rparr>,
               ex_world0\<lparr>trace := ex_init_trace\<rparr>)) \<and>
   stopped_at_failure ex_env_no_thread ex_init_trace \<and>
   list_all (\<lambda>ev. \<not> teardown ev) ex_init_trace \<and>
   jack_client_open ex_env_no_thread ''dev'' JackNoStartServer = Some 7"
proof -
  have closed: "jack_client ex_data_closed = None"
    and sized: "\<forall>c. jack_get_buffer_size ex_env_no_thread c \<noteq> 0"
    by (simp_all add: ex_data_closed_def ex_env_no_thread_def ex_env_def)
  from jack_init_no_rollback [OF closed sized, of ex_world_empty]
  show ?thesis
    unfolding ex_init_no_thread
    by (auto simp: ex_world_empty_def ex_data_closed_def ex_data_def)
qed

subsection \<open>C8: the order of the teardown\<close>

text \<open>
  C8, as the code has it. On a session with a client, its port array and a valid ring
  buffer, \<open>deactivate_jack\<close> does, in this order: deactivate the engine client and
  then clear the activation flag (both only if the flag was set), join the worker (if
  it was started), unregister every registered port and free the port array, close
  the client, reset the cursors and free every block of the ring buffer. Afterwards
  both flags are clear, the three pointers are null and the blocks are released.
\<close>

theorem deactivate_jack_order:
  assumes "jack_client d = Some c"
    and "jack_ports d = Some pa" and "mem w pa = Some (Ports ps)"
    and "length ps = unat (channels d)"
    and "rb_valid (d, w)"
  shows "\<exists>d' w'. deactivate_jack (d, w) = Some (d', w') \<and>
     trace w' = trace w @
       (if activated d then [Jack_deactivate c, Store_activated False] else []) @
       (if transfer_thread_started d then [Pthread_join (transfer_thread d)] else []) @
       map (Jack_port_unregister c) [p. Some p \<leftarrow> ps] @
       [Bfree pa, Jack_client_close c,
        Os_atomic_set_long Rb_write 0, Os_atomic_set_long Rb_read 0] @
       map Bfree (rb_blocks (d, w)) \<and>
     \<not> activated d' \<and> \<not> transfer_thread_started d' \<and> jack_ports d' = None \<and>
     jack_client d' = None \<and> rb d' = None \<and>
     mem w' pa = None \<and> (\<forall>x\<in>set (rb_blocks (d, w)). mem w' x = None)"
  unfolding deactivate_jack_result [OF assms] by simp

text \<open>
  The engine client is deactivated before the activation flag is cleared, not after:
  the teardown of the example session.
\<close>

theorem deactivate_jack_order_counterexample:
  "map_option (trace \<circ> snd) (deactivate_jack (ex_data, ex_world)) =
     Some [Jack_deactivate 7, Store_activated False, Pthread_join 3,
           Jack_port_unregister 7 11, Jack_port_unregister 7 12, Bfree 0,
           Jack_client_close 7,
           Os_atomic_set_long Rb_write 0, Os_atomic_set_long Rb_read 0,
           Bfree 3, Bfree 4, Bfree 2, Bfree 6, Bfree 7, Bfree 5, Bfree 1]"
proof -
  have "jack_client ex_data = Some 7" "jack_ports ex_data = Some 0"
    "length [Some 11, Some (12 :: jack_port_t)] = unat (channels ex_data)"
    by (simp_all add: ex_data_def)
  from deactivate_jack_result [OF this(1,2) ex_ports this(3) ex_valid]
  show ?thesis
    by (simp add: ex_blocks) (simp add: ex_data_def ex_world_def)
qed

text \<open>The same teardown, read through the theorem.\<close>

theorem deactivate_jack_order_witness:
  "\<exists>d' w'. deactivate_jack (ex_data, ex_world) = Some (d', w') \<and>
     trace w' =
       [Jack_deactivate 7, Store_activated False, Pthread_join 3,
        Jack_port_unregister 7 11, Jack_port_unregister 7 12, Bfree 0,
        Jack_client_close 7,
        Os_atomic_set_long Rb_write 0, Os_atomic_set_long Rb_read 0,
        Bfree 3, Bfree 4, Bfree 2, Bfree 6, Bfree 7, Bfree 5, Bfree 1] \<and>
     \<not> activated d' \<and> \<not> transfer_thread_started d' \<and> jack_ports d' = None \<and>
     jack_client d' = None \<and> rb d' = None \<and> mem w' 0 = None \<and> mem w' 3 = None"
proof -
  have "jack_client ex_data = Some 7" "jack_ports ex_data = Some 0"
    "length [Some 11, Some (12 :: jack_port_t)] = unat (channels ex_data)"
    by (simp_all add: ex_data_def)
  from deactivate_jack_order [OF this(1,2) ex_ports this(3) ex_valid]
  show ?thesis
    by (simp add: ex_blocks) (auto simp: ex_data_def ex_world_def)
qed

subsection \<open>C9: what the producer leaves alone\<close>

text \<open>
  C9. A call of \<open>jack_process_callback\<close> on a session returns 0 and changes one field
  of \<open>struct jack_data\<close> only: \<open>rb_write\<close>, which it increments by one. \<open>rb_read\<close>,
  \<open>rb_buffer_size\<close>, \<open>rb_items\<close> and the pointer \<open>rb\<close> keep their values.
\<close>

theorem jack_process_callback_frame:
  "jack_process_callback e nf (Some (d, w)) = Some (r, arg') \<longrightarrow>
     r = 0 \<and>
     (\<exists>d' w'. arg' = Some (d', w') \<and>
        rb_write d' = rb_write d + 1 \<and>
        rb_read d' = rb_read d \<and>
        rb_buffer_size d' = rb_buffer_size d \<and>
        rb_items d' = rb_items d \<and>
        rb d' = rb d \<and>
        d' = d\<lparr>rb_write := rb_write d + 1\<rparr>)"
  by (auto simp: jack_process_callback_def Let_def split: Option.bind_splits)

theorem jack_process_callback_frame_witness:
  "jack_process_callback ex_env 2
     (Some (ex_data\<lparr>rb_write := 0\<rparr>, ex_world0)) =
   Some (0, Some (ex_data, ex_world\<lparr>trace := [Os_atomic_inc_long Rb_write]\<rparr>)) \<and>
   rb_write ex_data = 1 \<and> rb_read ex_data = 0 \<and> rb ex_data = Some 1"
  using jack_process_callback_frame [of ex_env 2 "ex_data\<lparr>rb_write := 0\<rparr>"
      ex_world0 0
      "Some (ex_data, ex_world\<lparr>trace := [Os_atomic_inc_long Rb_write]\<rparr>)"] ex_process
  by (simp add: ex_data_def)

subsection \<open>C10: \<open>jack_init\<close> on an open client\<close>

text \<open>
  C10. When \<open>jack_client\<close> is not null, \<open>jack_init\<close> returns 0 at once: the session,
  the memory and the trace are unchanged (nothing is registered, allocated or
  spawned).
\<close>

theorem jack_init_idempotent:
  "jack_client d \<noteq> None \<Longrightarrow> jack_init e (d, w) = Some (0, (d, w))"
  by (simp add: jack_init_def)

theorem jack_init_idempotent_witness:
  "jack_client ex_data = Some 7 \<and> jack_init ex_env (ex_data, ex_world) = Some (0, (ex_data, ex_world))"
  using jack_init_idempotent [of ex_data ex_env ex_world] by (simp add: ex_data_def)



end
